theory Spec2Isabelle
  imports Complex_Main "HOL-Library.AList" "HOL-Library.Multiset"
begin

section \<open>Python values, failures and containers\<close>

text \<open>
  Every exception the modelled code can raise is a value; a computation that may raise
  returns \<open>error + 'a\<close> with \<open>Inl\<close> the exception.
\<close>

datatype error =
    KeyError
  | IndexError
  | ZeroDivisionError
  | TypeError
  | ValueError
  | AssertionError
  | AttributeError
  | NotFittedError
  | FileNotFoundError

text \<open>
  A Python \<open>dict\<close> keeps its keys in insertion order; it is an association list with
  distinct keys. \<open>d[k] = v\<close> overwrites the value of a present key in place and appends a
  new key at the end, which is what \<open>AList.update\<close> does; \<open>d[k]\<close> raises \<open>KeyError\<close> on
  a missing key.
\<close>

type_synonym ('k, 'v) dict = "('k \<times> 'v) list"

definition getitem :: "('k, 'v) dict \<Rightarrow> 'k \<Rightarrow> error + 'v" where
  "getitem d k = (case map_of d k of None \<Rightarrow> Inl KeyError | Some v \<Rightarrow> Inr v)"

definition setitem :: "('k, 'v) dict \<Rightarrow> 'k \<Rightarrow> 'v \<Rightarrow> ('k, 'v) dict" where
  "setitem d k v = AList.update k v d"

text \<open>\<open>dict(pairs)\<close>: the pairs are stored from left to right.\<close>

definition dict_of_pairs :: "('k \<times> 'v) list \<Rightarrow> ('k, 'v) dict" where
  "dict_of_pairs ps = fold (\<lambda>(k, v) d. setitem d k v) ps []"

definition keys :: "('k, 'v) dict \<Rightarrow> 'k list" where
  "keys d = map fst d"

definition py_enumerate :: "'a list \<Rightarrow> (int \<times> 'a) list" where
  "py_enumerate xs = zip (map int [0..<length xs]) xs"

text \<open>A list comprehension over a body that may raise: the first exception wins.\<close>

fun sequence_sum :: "(error + 'a) list \<Rightarrow> error + 'a list" where
  "sequence_sum [] = Inr []"
| "sequence_sum (r # rs) =
     (case r of
        Inl e \<Rightarrow> Inl e
      | Inr v \<Rightarrow> (case sequence_sum rs of Inl e \<Rightarrow> Inl e | Inr vs \<Rightarrow> Inr (v # vs)))"

text \<open>
  A Python \<open>set\<close> of strings iterates in the order of its hash table, which for strings
  changes from one interpreter run to the next. The set under construction is kept as
  the sequence of its insertions, and the iteration order is a parameter \<open>set_iter\<close> of
  every function that iterates over a set. All that Python promises of it is that each
  member comes exactly once.
\<close>

definition set_iteration_order :: "(string list \<Rightarrow> string list) \<Rightarrow> bool" where
  "set_iteration_order set_iter =
     (\<forall>xs. distinct (set_iter xs) \<and> set (set_iter xs) = set xs)"

section \<open>The classification model (BERT/base\_model.py)\<close>

subsection \<open>State\<close>

text \<open>
  A training target is a label string (single-label task) or a list of label strings
  (multi-label task): the type hint \<open>Union[List[str], List[List[str]]]\<close> of \<open>y_train\<close>.
\<close>

datatype target = Str string | Lst "string list"

text \<open>\<open>list(i)\<close>: a list is itself, a string is the list of its characters.\<close>

fun target_items :: "target \<Rightarrow> string list" where
  "target_items (Str s) = map (\<lambda>c. [c]) s"
| "target_items (Lst ls) = ls"

text \<open>
  The embedding is an object of the kashgari library. Of it the model keeps the
  attributes the class reads and writes (\<open>sequence_length\<close>, where 0 means not set, and
  \<open>is_bert\<close>), its tokenizer for one sentence, and its method \<open>build_token2idx_dict\<close>,
  which from a corpus and a minimum count builds the vocabulary, that is, the tokenizer.
\<close>

record embedding =
  sequence_length :: nat
  is_bert :: bool
  tokenize_sentence :: "string list \<Rightarrow> int list"
  build_token2idx_dict :: "string list list \<Rightarrow> nat \<Rightarrow> string list \<Rightarrow> int list"

text \<open>
  sklearn's \<open>MultiLabelBinarizer\<close>: the constructor argument \<open>classes\<close> and the fitted
  attribute \<open>classes_\<close>, absent until \<open>fit\<close> has run.
\<close>

record binarizer =
  classes :: "string list"
  classes_fitted :: "string list option"

text \<open>
  The input handed to the network: the padded token ids, and for a BERT embedding an
  all-zero segment array of the same shape beside them.
\<close>

datatype x_input =
    Tokens "int list list"
  | TokensSeg "int list list" "real list list"

record classification_model =
  embedding :: embedding
  multi_label :: bool
  multi_label_binarizer :: "binarizer option"
  label2idx :: "(string, int) dict"
  idx2label :: "(int, string) dict"
  model :: "(x_input \<Rightarrow> real list list) option"

subsection \<open>The label index\<close>

text \<open>The setter of \<open>label2idx\<close> (lines 70-73) derives the inverse dictionary.\<close>

definition invert_dict :: "('k, 'v) dict \<Rightarrow> ('v, 'k) dict" where
  "invert_dict d = dict_of_pairs (map (\<lambda>(key, val). (val, key)) d)"

definition set_label2idx :: "classification_model \<Rightarrow> (string, int) dict \<Rightarrow> classification_model" where
  "set_label2idx st v = st\<lparr>label2idx := v, idx2label := invert_dict v\<rparr>"

text \<open>
  \<open>set(y_data)\<close> in the single-label branch: a list is not hashable, so a target that is
  a list raises \<open>TypeError\<close>.
\<close>

fun set_of_targets :: "target list \<Rightarrow> error + string list" where
  "set_of_targets [] = Inr []"
| "set_of_targets (Str s # ts) =
     (case set_of_targets ts of Inl e \<Rightarrow> Inl e | Inr ss \<Rightarrow> Inr (s # ss))"
| "set_of_targets (Lst ls # ts) = Inl TypeError"

text \<open>
  \<open>build_token2id_label2id_dict\<close> (lines 92-117). \<open>if x_validate:\<close> is false for
  \<open>None\<close> and for the empty list, and then \<open>y_validate\<close> is not read at all; when it is
  true and \<open>y_validate\<close> is \<open>None\<close>, \<open>y_train + y_validate\<close> raises \<open>TypeError\<close>. The state
  is returned beside the outcome, since an exception leaves the attributes assigned so far.
\<close>

definition join_validate ::
  "string list list \<Rightarrow> target list \<Rightarrow> string list list option \<Rightarrow> target list option \<Rightarrow>
   error + (string list list \<times> target list)" where
  "join_validate x_train y_train x_validate y_validate =
     (case x_validate of
        None \<Rightarrow> Inr (x_train, y_train)
      | Some xv \<Rightarrow>
          if xv = [] then Inr (x_train, y_train)
          else (case y_validate of
                  None \<Rightarrow> Inl TypeError
                | Some yv \<Rightarrow> Inr (x_train @ xv, y_train @ yv)))"

definition label_set_of :: "bool \<Rightarrow> target list \<Rightarrow> error + string list" where
  "label_set_of multi y_data =
     (if multi then Inr (fold (\<lambda>i label_set. label_set @ target_items i) y_data [])
      else set_of_targets y_data)"

definition enumerate_labels :: "string list \<Rightarrow> (string, int) dict" where
  "enumerate_labels labels = fold (\<lambda>(idx, label) d. setitem d label idx) (py_enumerate labels) []"

definition build_token2id_label2id_dict ::
  "(string list \<Rightarrow> string list) \<Rightarrow> classification_model \<Rightarrow>
   string list list \<Rightarrow> target list \<Rightarrow> string list list option \<Rightarrow> target list option \<Rightarrow>
   classification_model \<times> (error + unit)" where
  "build_token2id_label2id_dict set_iter st x_train y_train x_validate y_validate =
     (case join_validate x_train y_train x_validate y_validate of
        Inl e \<Rightarrow> (st, Inl e)
      | Inr (x_data, y_data) \<Rightarrow>
          let emb = embedding st;
              st1 = st\<lparr>embedding := emb\<lparr>tokenize_sentence := build_token2idx_dict emb x_data 3\<rparr>\<rparr>
          in (case label_set_of (multi_label st1) y_data of
                Inl e \<Rightarrow> (st1, Inl e)
              | Inr label_set \<Rightarrow>
                  let l2i = enumerate_labels (set_iter label_set)
                  in (st1\<lparr>label2idx := l2i,
                           idx2label := invert_dict l2i,
                           multi_label_binarizer :=
                             Some \<lparr>classes = keys l2i, classes_fitted = None\<rparr>\<rparr>,
                      Inr ())))"

text \<open>
  \<open>convert_label_to_idx\<close> and \<open>convert_idx_to_label\<close> (lines 119-129) take one value or
  a list of them and answer in the same shape. A list used as a dictionary key raises
  \<open>TypeError\<close>. The list given to \<open>convert_label_to_idx\<close> is a list of targets
  (\<open>target_y\<close> in the generator, \<open>y_train\<close> in \<open>fit\<close>); a list of label strings
  \<open>ls\<close> is \<open>map Str ls\<close>.
\<close>

datatype labels = OneLabel string | ManyLabels "target list"

datatype idxs = OneIdx int | ManyIdxs "int list"

datatype names = OneName string | ManyNames "string list"

fun lookup_target :: "(string, int) dict \<Rightarrow> target \<Rightarrow> error + int" where
  "lookup_target d (Str s) = getitem d s"
| "lookup_target d (Lst ls) = Inl TypeError"

fun convert_label_to_idx :: "classification_model \<Rightarrow> labels \<Rightarrow> error + idxs" where
  "convert_label_to_idx st (OneLabel label) =
     (case getitem (label2idx st) label of Inl e \<Rightarrow> Inl e | Inr i \<Rightarrow> Inr (OneIdx i))"
| "convert_label_to_idx st (ManyLabels label) =
     (case sequence_sum (map (lookup_target (label2idx st)) label) of
        Inl e \<Rightarrow> Inl e
      | Inr is \<Rightarrow> Inr (ManyIdxs is))"

fun convert_idx_to_label :: "classification_model \<Rightarrow> idxs \<Rightarrow> error + names" where
  "convert_idx_to_label st (OneIdx token) =
     (case getitem (idx2label st) token of Inl e \<Rightarrow> Inl e | Inr l \<Rightarrow> Inr (OneName l))"
| "convert_idx_to_label st (ManyIdxs token) =
     (case sequence_sum (map (getitem (idx2label st)) token) of
        Inl e \<Rightarrow> Inl e
      | Inr ls \<Rightarrow> Inr (ManyNames ls))"

text \<open>
  The order in which the members of a list are seen first, the order the specification
  gives for the ids.
\<close>

definition first_seen :: "string list \<Rightarrow> string list" where
  "first_seen xs = rev (remdups (rev xs))"

subsection \<open>Slices, ranges and integer division\<close>

text \<open>
  \<open>xs[start:stop]\<close>: a negative bound counts from the end, and both bounds are clipped
  to the list. \<open>a // b\<close> rounds to minus infinity, as \<open>div\<close> on \<open>int\<close> does, and
  raises on a zero divisor. \<open>range(n)\<close> is empty for \<open>n \<le> 0\<close>.
\<close>

definition slice_bound :: "nat \<Rightarrow> int \<Rightarrow> nat" where
  "slice_bound n i = (if i < 0 then nat (int n + i) else min n (nat i))"

definition py_slice :: "'a list \<Rightarrow> int \<Rightarrow> int \<Rightarrow> 'a list" where
  "py_slice xs start stop =
     (let a = slice_bound (length xs) start; b = slice_bound (length xs) stop
      in take (b - a) (drop a xs))"

definition floordiv :: "int \<Rightarrow> int \<Rightarrow> error + int" where
  "floordiv a b = (if b = 0 then Inl ZeroDivisionError else Inr (a div b))"

definition py_range :: "int \<Rightarrow> int list" where
  "py_range n = [0..n - 1]"

subsection \<open>Library calls of the batch generator\<close>

text \<open>
  kashgari's \<open>embedding.tokenize\<close> looks at the first element of its argument to tell
  one sentence from a list of sentences, which raises \<open>IndexError\<close> on an empty list;
  a list of sentences is tokenized sentence by sentence.
\<close>

definition tokenize :: "embedding \<Rightarrow> string list list \<Rightarrow> error + int list list" where
  "tokenize emb sentences =
     (if sentences = [] then Inl IndexError else Inr (map (tokenize_sentence emb) sentences))"

text \<open>
  Keras' \<open>pad_sequences(sequences, maxlen, padding='post')\<close>: a sequence longer than
  \<open>maxlen\<close> keeps its last \<open>maxlen\<close> entries (the default \<open>truncating='pre'\<close>), a
  shorter one is filled up with zeros at the end. With \<open>maxlen = 0\<close> the slice
  \<open>s[-maxlen:]\<close> is the whole sequence, which does not fit a row of width 0: a
  non-empty sequence raises \<open>ValueError\<close>.
\<close>

definition pad_row :: "nat \<Rightarrow> int list \<Rightarrow> int list" where
  "pad_row maxlen s =
     (let trunc = drop (length s - maxlen) s
      in trunc @ replicate (maxlen - length trunc) 0)"

definition pad_sequences :: "int list list \<Rightarrow> nat \<Rightarrow> error + int list list" where
  "pad_sequences sequences maxlen =
     (if maxlen = 0 \<and> list_ex (\<lambda>s. s \<noteq> []) sequences then Inl ValueError
      else Inr (map (pad_row maxlen) sequences))"

text \<open>
  Keras' \<open>to_categorical(y, num_classes)\<close>: one row per entry of \<open>y\<close> with a 1 at that
  index (numpy accepts a negative index counting from the end and raises \<open>IndexError\<close>
  outside). A \<open>num_classes\<close> of 0 counts as not given, and the width is then
  \<open>max(y) + 1\<close>, which raises \<open>ValueError\<close> on an empty \<open>y\<close>.
\<close>

definition one_hot :: "nat \<Rightarrow> int \<Rightarrow> error + int list" where
  "one_hot n i =
     (if - int n \<le> i \<and> i < int n
      then Inr ((replicate n 0)[nat (if i < 0 then i + int n else i) := 1])
      else Inl IndexError)"

definition to_categorical :: "int list \<Rightarrow> nat \<Rightarrow> error + int list list" where
  "to_categorical y num_classes =
     (if num_classes = 0 \<and> y = [] then Inl ValueError
      else let n = (if num_classes = 0 then nat (Max (set y) + 1) else num_classes)
           in sequence_sum (map (one_hot n) y))"

text \<open>
  sklearn's \<open>MultiLabelBinarizer.fit_transform\<close> with \<open>classes\<close> given: \<open>fit\<close> refuses
  duplicate classes and stores them as \<open>classes_\<close>; \<open>transform\<close> gives one multi-hot row
  per target over the classes in their order, a label that is not a class being left out.
\<close>

definition binarizer_transform :: "string list \<Rightarrow> target list \<Rightarrow> int list list" where
  "binarizer_transform cls y =
     map (\<lambda>t. map (\<lambda>c. if c \<in> set (target_items t) then 1 else 0) cls) y"

definition fit_transform :: "binarizer \<Rightarrow> target list \<Rightarrow> error + (binarizer \<times> int list list)" where
  "fit_transform b y =
     (if \<not> distinct (classes b) then Inl ValueError
      else Inr (b\<lparr>classes_fitted := Some (classes b)\<rparr>, binarizer_transform (classes b) y))"

definition zeros :: "nat \<Rightarrow> nat \<Rightarrow> real list list" where
  "zeros rows cols = replicate rows (replicate cols 0)"

subsection \<open>The batch generator\<close>

text \<open>Lines 140-146: the slice of one page, and the first page in place of an empty one.\<close>

definition select_page :: "'a list \<Rightarrow> 'b list \<Rightarrow> int \<Rightarrow> int \<Rightarrow> 'a list \<times> 'b list" where
  "select_page x_data y_data batch_size page =
     (let start_index = page * batch_size;
          end_index = start_index + batch_size;
          target_x = py_slice x_data start_index end_index;
          target_y = py_slice y_data start_index end_index
      in if length target_x = 0
         then (py_slice x_data 0 batch_size, py_slice y_data 0 batch_size)
         else (target_x, target_y))"

text \<open>
  Lines 154-160: the targets of a batch. The multi-label branch fits the binarizer, an
  assignment to the model's state; without a binarizer the method call on \<open>None\<close> raises
  \<open>AttributeError\<close>.
\<close>

definition encode_targets ::
  "classification_model \<Rightarrow> target list \<Rightarrow> classification_model \<times> (error + int list list)" where
  "encode_targets st target_y =
     (if multi_label st then
        (case multi_label_binarizer st of
           None \<Rightarrow> (st, Inl AttributeError)
         | Some b \<Rightarrow>
             (case fit_transform b target_y of
                Inl e \<Rightarrow> (st, Inl e)
              | Inr (b', padded_y) \<Rightarrow> (st\<lparr>multi_label_binarizer := Some b'\<rparr>, Inr padded_y)))
      else
        (st, case convert_label_to_idx st (ManyLabels target_y) of
               Inl e \<Rightarrow> Inl e
             | Inr (OneIdx i) \<Rightarrow> to_categorical [i] (length (label2idx st))
             | Inr (ManyIdxs tokenized_y) \<Rightarrow> to_categorical tokenized_y (length (label2idx st))))"

type_synonym batch = "x_input \<times> int list list"

text \<open>The token-id array of a batch, with or without the segment array beside it.\<close>

definition token_array :: "batch \<Rightarrow> int list list" where
  "token_array b = (case fst b of Tokens padded_x \<Rightarrow> padded_x | TokensSeg padded_x seg \<Rightarrow> padded_x)"

text \<open>Lines 140-166: the body of the \<open>for\<close> loop, up to the \<open>yield\<close>.\<close>

definition yield_page ::
  "classification_model \<Rightarrow> string list list \<Rightarrow> target list \<Rightarrow> int \<Rightarrow> bool \<Rightarrow> int \<Rightarrow>
   classification_model \<times> (error + batch)" where
  "yield_page st x_data y_data batch_size bert page =
     (let (target_x, target_y) = select_page x_data y_data batch_size page
      in case tokenize (embedding st) target_x of
           Inl e \<Rightarrow> (st, Inl e)
         | Inr tokenized_x \<Rightarrow>
             (case pad_sequences tokenized_x (sequence_length (embedding st)) of
                Inl e \<Rightarrow> (st, Inl e)
              | Inr padded_x \<Rightarrow>
                  (case encode_targets st target_y of
                     (st', Inl e) \<Rightarrow> (st', Inl e)
                   | (st', Inr padded_y) \<Rightarrow>
                       (st', Inr (if bert
                                  then TokensSeg padded_x
                                         (zeros (length padded_x)
                                            (sequence_length (embedding st)))
                                  else Tokens padded_x,
                                  padded_y)))))"

text \<open>
  The \<open>for\<close> loop over the shuffled page list: the batches yielded, in order, and the
  exception that ended the generator, if one did.
\<close>

fun for_pages ::
  "classification_model \<Rightarrow> string list list \<Rightarrow> target list \<Rightarrow> int \<Rightarrow> bool \<Rightarrow> int list \<Rightarrow>
   classification_model \<times> batch list \<times> error option" where
  "for_pages st x_data y_data batch_size bert [] = (st, [], None)"
| "for_pages st x_data y_data batch_size bert (page # pages) =
     (case yield_page st x_data y_data batch_size bert page of
        (st', Inl e) \<Rightarrow> (st', [], Some e)
      | (st', Inr b) \<Rightarrow>
          (case for_pages st' x_data y_data batch_size bert pages of
             (st'', bs, r) \<Rightarrow> (st'', b # bs, r)))"

text \<open>
  \<open>get_data_generator\<close> (lines 131-166). The generator never ends by itself; what is
  modelled is its first passes through the \<open>while True\<close> loop, one for each element of
  the last argument, which gives the outcome of \<open>random.shuffle\<close> in that pass as a
  function on the page list.
\<close>

fun get_data_generator ::
  "classification_model \<Rightarrow> string list list \<Rightarrow> target list \<Rightarrow> int \<Rightarrow> bool \<Rightarrow>
   (int list \<Rightarrow> int list) list \<Rightarrow> classification_model \<times> batch list \<times> error option" where
  "get_data_generator st x_data y_data batch_size bert [] = (st, [], None)"
| "get_data_generator st x_data y_data batch_size bert (shuffled # passes) =
     (case floordiv (int (length x_data)) batch_size of
        Inl e \<Rightarrow> (st, [], Some e)
      | Inr q \<Rightarrow>
          (case for_pages st x_data y_data batch_size bert (shuffled (py_range (q + 1))) of
             (st', bs, Some e) \<Rightarrow> (st', bs, Some e)
           | (st', bs, None) \<Rightarrow>
               (case get_data_generator st' x_data y_data batch_size bert passes of
                  (st'', bs', r) \<Rightarrow> (st'', bs @ bs', r))))"

definition shuffle_outcome :: "(int list \<Rightarrow> int list) \<Rightarrow> bool" where
  "shuffle_outcome shuffled = (\<forall>pages. mset (shuffled pages) = mset pages)"

text \<open>
  The pages the generator goes through in its passes, in the order in which it reaches
  them; and the page whose slice the generator really takes for a page.
\<close>

definition visited_pages :: "nat \<Rightarrow> int \<Rightarrow> (int list \<Rightarrow> int list) list \<Rightarrow> int list" where
  "visited_pages n batch_size passes =
     concat (map (\<lambda>shuffled. shuffled (py_range (int n div batch_size + 1))) passes)"

definition page_taken :: "'a list \<Rightarrow> int \<Rightarrow> int \<Rightarrow> int" where
  "page_taken x_data batch_size page =
     (if py_slice x_data (page * batch_size) (page * batch_size + batch_size) = [] then 0
      else page)"

subsection \<open>Training\<close>

text \<open>Lines 195-196: a batch size larger than the training set is replaced.\<close>

definition effective_batch_size :: "nat \<Rightarrow> int \<Rightarrow> int" where
  "effective_batch_size n batch_size = (if int n < batch_size then int n div 2 else batch_size)"

text \<open>
  Line 200: \<open>sorted([len(x) for x in x_train])[int(0.95 * len(x_train))]\<close>. The index
  \<open>int(0.95 * n)\<close> is the integer part of 95 hundredths of \<open>n\<close>, written with integer
  division (the double-precision product has the same integer part for every length a
  list can have); it is below \<open>n\<close> unless \<open>n = 0\<close>, where the indexing raises.
\<close>

definition percentile_index :: "nat \<Rightarrow> nat" where
  "percentile_index n = (95 * n) div 100"

definition infer_sequence_length :: "string list list \<Rightarrow> error + nat" where
  "infer_sequence_length x_train =
     (let lens = sort (map length x_train); i = percentile_index (length x_train)
      in if i < length lens then Inr (lens ! i) else Inl IndexError)"

text \<open>
  Lines 198-202. \<open>build_model\<close> is abstract in this class; the parameter stands for
  the override of a subclass, which builds the network from the model's state and assigns
  it to \<open>self.model\<close>.
\<close>

definition prepare_model ::
  "(classification_model \<Rightarrow> x_input \<Rightarrow> real list list) \<Rightarrow> classification_model \<Rightarrow>
   string list list \<Rightarrow> classification_model \<times> (error + unit)" where
  "prepare_model build_model st x_train =
     (case model st of
        Some net \<Rightarrow> (st, Inr ())
      | None \<Rightarrow>
          (case (if sequence_length (embedding st) = 0
                 then infer_sequence_length x_train
                 else Inr (sequence_length (embedding st))) of
             Inl e \<Rightarrow> (st, Inl e)
           | Inr n \<Rightarrow>
               let st' = st\<lparr>embedding := (embedding st)\<lparr>sequence_length := n\<rparr>\<rparr>
               in (st'\<lparr>model := Some (build_model st')\<rparr>, Inr ())))"

text \<open>
  What \<open>fit\<close> hands to the framework's \<open>fit_generator\<close>: the generators are given by
  the arguments of \<open>get_data_generator\<close> they were created with (a generator runs nothing
  before its first batch is asked for). Training itself belongs to the framework.
\<close>

type_synonym generator_args = "string list list \<times> target list \<times> int \<times> bool"

record fit_generator_call =
  train_generator :: generator_args
  steps_per_epoch :: int
  epochs_given :: int
  class_weights :: "real list option"
  validation_data :: "generator_args option"
  validation_steps :: "int option"

text \<open>
  Lines 212-218. With a non-empty \<open>x_validate\<close> and no \<open>y_validate\<close> the vocabulary
  construction has already raised, so that case is not reached from \<open>fit\<close>.
\<close>

definition validation_kwargs ::
  "classification_model \<Rightarrow> string list list option \<Rightarrow> target list option \<Rightarrow> int \<Rightarrow>
   error + (generator_args option \<times> int option)" where
  "validation_kwargs st x_validate y_validate batch_size =
     (case x_validate of
        None \<Rightarrow> Inr (None, None)
      | Some xv \<Rightarrow>
          if xv = [] then Inr (None, None)
          else (case y_validate of
                  None \<Rightarrow> Inl TypeError
                | Some yv \<Rightarrow>
                    (case floordiv (int (length xv)) batch_size of
                       Inl e \<Rightarrow> Inl e
                     | Inr q \<Rightarrow>
                         Inr (Some (xv, yv, batch_size, is_bert (embedding st)),
                              Some (max q 1)))))"

text \<open>
  Lines 220-226. sklearn's \<open>compute_class_weight\<close> is a parameter: it is given the
  sorted distinct ids (\<open>np.unique\<close>) and the ids of all training targets.
\<close>

definition class_weights_of ::
  "(int list \<Rightarrow> int list \<Rightarrow> real list) \<Rightarrow> classification_model \<Rightarrow> bool \<Rightarrow> target list \<Rightarrow>
   error + real list option" where
  "class_weights_of compute_class_weight st class_weight y_train =
     (if class_weight then
        (case convert_label_to_idx st (ManyLabels y_train) of
           Inl e \<Rightarrow> Inl e
         | Inr (OneIdx i) \<Rightarrow> Inr (Some (compute_class_weight [i] [i]))
         | Inr (ManyIdxs y_list) \<Rightarrow>
             Inr (Some (compute_class_weight (sort (remdups y_list)) y_list)))
      else Inr None)"

text \<open>
  \<open>fit\<close> (lines 168-232), up to the call of \<open>fit_generator\<close>. The pass-through
  dictionary \<open>fit_kwargs\<close> is left out.
\<close>

definition fit ::
  "(string list \<Rightarrow> string list) \<Rightarrow> (classification_model \<Rightarrow> x_input \<Rightarrow> real list list) \<Rightarrow>
   (int list \<Rightarrow> int list \<Rightarrow> real list) \<Rightarrow> classification_model \<Rightarrow>
   string list list \<Rightarrow> target list \<Rightarrow> string list list option \<Rightarrow> target list option \<Rightarrow>
   int \<Rightarrow> int \<Rightarrow> bool \<Rightarrow> classification_model \<times> (error + fit_generator_call)" where
  "fit set_iter build_model compute_class_weight st x_train y_train x_validate y_validate
       batch_size epochs class_weight =
     (if length x_train \<noteq> length y_train then (st, Inl AssertionError)
      else
        (case build_token2id_label2id_dict set_iter st x_train y_train x_validate y_validate of
           (st1, Inl e) \<Rightarrow> (st1, Inl e)
         | (st1, Inr u) \<Rightarrow>
             let batch_size' = effective_batch_size (length x_train) batch_size
             in (case prepare_model build_model st1 x_train of
                   (st2, Inl e) \<Rightarrow> (st2, Inl e)
                 | (st2, Inr u') \<Rightarrow>
                     (case validation_kwargs st2 x_validate y_validate batch_size' of
                        Inl e \<Rightarrow> (st2, Inl e)
                      | Inr (vdata, vsteps) \<Rightarrow>
                          (case class_weights_of compute_class_weight st2 class_weight y_train of
                             Inl e \<Rightarrow> (st2, Inl e)
                           | Inr cw \<Rightarrow>
                               (case model st2 of
                                  None \<Rightarrow> (st2, Inl AttributeError)
                                | Some net \<Rightarrow>
                                    (case floordiv (int (length x_train)) batch_size' of
                                       Inl e \<Rightarrow> (st2, Inl e)
                                     | Inr steps \<Rightarrow>
                                         (st2,
                                          Inr \<lparr>train_generator =
                                                 (x_train, y_train, batch_size',
                                                  is_bert (embedding st2)),
                                               steps_per_epoch = steps,
                                               epochs_given = epochs,
                                               class_weights = cw,
                                               validation_data = vdata,
                                               validation_steps = vsteps\<rparr>))))))))"

subsection \<open>Prediction\<close>

text \<open>
  The argument of \<open>predict\<close> is one tokenized sentence or a list of them. Line 266 tells
  them apart by the first element, which raises \<open>IndexError\<close> on an empty list.
\<close>

datatype sentence = One "string list" | Many "string list list"

definition is_list_of :: "sentence \<Rightarrow> error + bool" where
  "is_list_of sentence =
     (case sentence of
        One s \<Rightarrow> (if s = [] then Inl IndexError else Inr False)
      | Many ss \<Rightarrow> (if ss = [] then Inl IndexError else Inr True))"

text \<open>
  A result for one sentence: a label, a tuple of labels (multi-label), or the dictionary
  of \<open>_format_output_dic\<close> with the words, the best candidate and all candidates, each
  a name with its confidence. \<open>predict\<close> returns one result or a list of results.
\<close>

datatype result =
    Label string
  | LabelTuple "string list"
  | OutputDict "string list" "string \<times> real" "(string \<times> real) list"

datatype prediction = Scalar result | Results "result list"

text \<open>
  Lines 284-285, two assignments through a mask, one after the other. Scores and
  threshold are real numbers here. numpy compares the scores, which are float32, with
  the threshold rounded to float32; for the default threshold 0.6 that gives the same
  answer on every float32 score, since no float32 number lies from 0.6 up to the
  float32 nearest to it. For other thresholds the two can differ on a score next to
  the threshold.
\<close>

definition apply_threshold :: "real \<Rightarrow> real list list \<Rightarrow> real list list" where
  "apply_threshold multi_label_threshold res =
     (let res1 = map (map (\<lambda>v. if v \<ge> multi_label_threshold then 1 else v)) res
      in map (map (\<lambda>v. if v < multi_label_threshold then 0 else v)) res1)"

text \<open>\<open>argmax(-1)\<close>: the first index of the largest entry of a row; an empty row raises.\<close>

fun argmax_from :: "real list \<Rightarrow> int \<Rightarrow> int \<Rightarrow> real \<Rightarrow> int" where
  "argmax_from [] pos best v = best"
| "argmax_from (x # xs) pos best v =
     (if x > v then argmax_from xs (pos + 1) pos x else argmax_from xs (pos + 1) best v)"

definition argmax :: "real list \<Rightarrow> error + int" where
  "argmax row = (case row of [] \<Rightarrow> Inl ValueError | x # xs \<Rightarrow> Inr (argmax_from xs 1 0 x))"

text \<open>
  sklearn's \<open>MultiLabelBinarizer.inverse_transform\<close>: it needs a fitted binarizer, rows
  as wide as there are classes and no entry other than 0 and 1, and gives for each row
  the tuple of the classes at its non-zero entries.
\<close>

definition inverse_transform :: "binarizer \<Rightarrow> real list list \<Rightarrow> error + string list list" where
  "inverse_transform b yt =
     (case classes_fitted b of
        None \<Rightarrow> Inl NotFittedError
      | Some cls \<Rightarrow>
          if \<exists>row \<in> set yt. length row \<noteq> length cls then Inl ValueError
          else if \<exists>row \<in> set yt. \<exists>v \<in> set row. v \<noteq> 0 \<and> v \<noteq> 1 then Inl ValueError
          else Inr (map (\<lambda>row. map fst (filter (\<lambda>(c, v). v \<noteq> 0) (zip cls row))) yt))"

text \<open>\<open>_format_output_dic\<close> (lines 234-248); \<open>sorted\<close> is stable, as \<open>sort_key\<close> is.\<close>

definition first_name :: "names \<Rightarrow> error + string" where
  "first_name ns =
     (case ns of
        OneName s \<Rightarrow> (case s of [] \<Rightarrow> Inl IndexError | c # cs \<Rightarrow> Inr [c])
      | ManyNames ls \<Rightarrow> (case ls of [] \<Rightarrow> Inl IndexError | l # ls' \<Rightarrow> Inr l))"

definition candidate :: "classification_model \<Rightarrow> int \<times> real \<Rightarrow> error + (string \<times> real)" where
  "candidate st r =
     (case convert_idx_to_label st (ManyIdxs [fst r]) of
        Inl e \<Rightarrow> Inl e
      | Inr ns \<Rightarrow> (case first_name ns of Inl e \<Rightarrow> Inl e | Inr name \<Rightarrow> Inr (name, snd r)))"

definition format_output_dic :: "classification_model \<Rightarrow> string list \<Rightarrow> real list \<Rightarrow> error + result" where
  "format_output_dic st words res =
     (let results = sort_key (\<lambda>x. - snd x) (py_enumerate res)
      in case sequence_sum (map (candidate st) results) of
           Inl e \<Rightarrow> Inl e
         | Inr candidates \<Rightarrow>
             (case candidates of
                [] \<Rightarrow> Inl IndexError
              | c # cs \<Rightarrow> Inr (OutputDict words c candidates)))"

definition row_at :: "'a list \<Rightarrow> nat \<Rightarrow> error + 'a" where
  "row_at xs i = (if i < length xs then Inr (xs ! i) else Inl IndexError)"

text \<open>
  Lines 295-315: the results of all sentences, from the scores \<open>res\<close> and, in the
  single-label case, the argmax of each row (\<open>predict_result\<close>; in the multi-label case
  \<open>predict_result\<close> is \<open>res\<close> itself).
\<close>

definition results_of ::
  "classification_model \<Rightarrow> string list list \<Rightarrow> bool \<Rightarrow> real list list \<Rightarrow> int list \<Rightarrow>
   error + result list" where
  "results_of st words_list output_dict res predict_result =
     (if output_dict then
        sequence_sum
          (map (\<lambda>index. case row_at res index of
                          Inl e \<Rightarrow> Inl e
                        | Inr row \<Rightarrow> format_output_dic st (words_list ! index) row)
               [0..<length words_list])
      else if multi_label st then
        (case multi_label_binarizer st of
           None \<Rightarrow> Inl AttributeError
         | Some b \<Rightarrow>
             (case inverse_transform b res of
                Inl e \<Rightarrow> Inl e
              | Inr tuples \<Rightarrow> Inr (map LabelTuple tuples)))
      else
        (case convert_idx_to_label st (ManyIdxs predict_result) of
           Inl e \<Rightarrow> Inl e
         | Inr (OneName s) \<Rightarrow> Inr [Label s]
         | Inr (ManyNames ls) \<Rightarrow> Inr (map Label ls)))"

text \<open>
  \<open>predict\<close> (lines 250-315). \<open>tokenize_input\<close> is line 265, giving the list of
  token sequences that is padded (the tokens of a list of sentences, or the list of the
  tokens of one sentence); \<open>predict_input\<close> is lines 265-278, what the network is
  called with. The tokenizer and line 266 both read the first element of \<open>sentence\<close>
  and raise \<open>IndexError\<close> on an empty list; the flag of line 266 is read again
  where \<open>predict\<close> uses it. The arguments \<open>batch_size\<close>, which only
  reaches the network, and \<open>debug_info\<close>, which only logs, are left out. In the
  multi-label case \<open>res\<close> itself is overwritten by the thresholding, so the dictionaries
  are built from the thresholded scores; in the single-label case the row-wise argmax
  is taken also when only the dictionaries are returned, and raises on an empty row.
\<close>

definition tokenize_input :: "embedding \<Rightarrow> sentence \<Rightarrow> error + int list list" where
  "tokenize_input emb sentence =
     (case sentence of
        One s \<Rightarrow> (if s = [] then Inl IndexError else Inr [tokenize_sentence emb s])
      | Many ss \<Rightarrow> tokenize emb ss)"

definition network_input :: "embedding \<Rightarrow> int list list \<Rightarrow> error + x_input" where
  "network_input emb tokens =
     (case pad_sequences tokens (sequence_length emb) of
        Inl e \<Rightarrow> Inl e
      | Inr padded_tokens \<Rightarrow>
          Inr (if is_bert emb
               then TokensSeg padded_tokens (zeros (length padded_tokens) (sequence_length emb))
               else Tokens padded_tokens))"

definition predict_input :: "classification_model \<Rightarrow> sentence \<Rightarrow> error + x_input" where
  "predict_input st sentence =
     (case tokenize_input (embedding st) sentence of
        Inl e \<Rightarrow> Inl e
      | Inr tokens \<Rightarrow>
          (case is_list_of sentence of
             Inl e \<Rightarrow> Inl e
           | Inr is_list \<Rightarrow> network_input (embedding st) tokens))"

definition predict ::
  "classification_model \<Rightarrow> sentence \<Rightarrow> bool \<Rightarrow> real \<Rightarrow> error + prediction" where
  "predict st sentence output_dict multi_label_threshold =
     (case predict_input st sentence of
        Inl e \<Rightarrow> Inl e
      | Inr x \<Rightarrow>
          (case is_list_of sentence of
             Inl e \<Rightarrow> Inl e
           | Inr is_list \<Rightarrow>
               (case model st of
                  None \<Rightarrow> Inl AttributeError
                | Some net \<Rightarrow>
                    let res0 = net x;
                        res = (if multi_label st
                               then apply_threshold multi_label_threshold res0
                               else res0);
                        words_list = (case sentence of Many ss \<Rightarrow> ss | One s \<Rightarrow> [s])
                    in (case (if multi_label st then Inr []
                              else sequence_sum (map argmax res)) of
                          Inl e \<Rightarrow> Inl e
                        | Inr predict_result \<Rightarrow>
                            (case results_of st words_list output_dict res predict_result of
                               Inl e \<Rightarrow> Inl e
                             | Inr results \<Rightarrow>
                                 if is_list then Inr (Results results)
                                 else (case results of
                                         [] \<Rightarrow> Inl IndexError
                                       | r # rs \<Rightarrow> Inr (Scalar r)))))))"

text \<open>The default of \<open>multi_label_threshold\<close>.\<close>

definition default_threshold :: real where
  "default_threshold = 0.6"

section \<open>The sentiment script (CNN/CNN+glove+Senntiment.py)\<close>

text \<open>
  \<open>load_data_and_label\<close> (lines 36-63). The file system is a parameter giving the lines
  of a file (what \<open>readlines\<close> returns) or nothing when it cannot be opened; the word
  segmenter \<open>jieba.cut\<close> is a parameter as well. A character stands for a code point
  below 256, and \<open>whitespace\<close> holds the code points below 256 that \<open>str.strip\<close>
  removes; the spaces of Unicode beyond them are not represented.
\<close>

definition whitespace :: "char \<Rightarrow> bool" where
  "whitespace c =
     (c \<in> set [CHR 0x09, CHR 0x0A, CHR 0x0B, CHR 0x0C, CHR 0x0D,
                CHR 0x1C, CHR 0x1D, CHR 0x1E, CHR 0x1F, CHR 0x20, CHR 0x85, CHR 0xA0])"

definition strip :: "string \<Rightarrow> string" where
  "strip s = rev (dropWhile whitespace (rev (dropWhile whitespace s)))"

fun join :: "string \<Rightarrow> string list \<Rightarrow> string" where
  "join sep [] = []"
| "join sep [w] = w"
| "join sep (w # ws) = w @ sep @ join sep ws"

definition load_data_and_label ::
  "(string \<Rightarrow> string list option) \<Rightarrow> (string \<Rightarrow> string list) \<Rightarrow> string \<Rightarrow> string \<Rightarrow>
   error + (string list \<times> int list)" where
  "load_data_and_label readlines jieba_cut pos_filename neg_filename =
     (case readlines pos_filename of
        None \<Rightarrow> Inl FileNotFoundError
      | Some pos_lines \<Rightarrow>
          let positive_texts = map (\<lambda>line. join '' '' (jieba_cut (strip line))) pos_lines
          in (case readlines neg_filename of
                None \<Rightarrow> Inl FileNotFoundError
              | Some neg_lines \<Rightarrow>
                  let negative_texts = map (\<lambda>line. join '' '' (jieba_cut (strip line))) neg_lines;
                      x_text = positive_texts @ negative_texts;
                      positive_labels = map (\<lambda>_. 1) negative_texts;
                      negative_labels = map (\<lambda>_. 0) negative_texts;
                      y = positive_labels @ negative_labels
                  in Inr (x_text, y)))"

section \<open>Example data\<close>

text \<open>
  Concrete inputs on which the theorems below are instantiated: an iteration order for
  sets that differs from the order of insertion, a toy embedding whose tokenizer maps a
  word to its length, and a model before and after the label index is built.
\<close>

definition reversed_iteration :: "string list \<Rightarrow> string list" where
  "reversed_iteration = rev \<circ> remdups"

definition example_embedding :: embedding where
  "example_embedding =
     \<lparr>sequence_length = 4, is_bert = False,
      tokenize_sentence = map (int \<circ> length),
      build_token2idx_dict = (\<lambda>corpus min_count. map (int \<circ> length))\<rparr>"

definition example_model :: classification_model where
  "example_model =
     \<lparr>embedding = example_embedding, multi_label = False, multi_label_binarizer = None,
      label2idx = [], idx2label = [], model = None\<rparr>"

definition trained_example :: classification_model where
  "trained_example =
     fst (build_token2id_label2id_dict remdups example_model
            [[''good'', ''film''], [''bad'']] [Str ''pos'', Str ''neg''] None None)"

definition example_files :: "string \<Rightarrow> string list option" where
  "example_files name =
     (if name = ''pos.txt'' then Some [''great movie '', ''loved it'', ''so good'']
      else if name = ''neg.txt'' then Some [''awful'']
      else None)"

definition example_cut :: "string \<Rightarrow> string list" where
  "example_cut s = [s]"

definition example_network :: "classification_model \<Rightarrow> x_input \<Rightarrow> real list list" where
  "example_network st x = []"

definition example_weights :: "int list \<Rightarrow> int list \<Rightarrow> real list" where
  "example_weights cls y = map (\<lambda>c. 1) cls"

definition ten_sentences :: "string list list" where
  "ten_sentences = map (\<lambda>n. replicate n ''w'') [3, 1, 4, 1, 5, 9, 2, 6, 5, 3]"

definition ten_targets :: "target list" where
  "ten_targets = map Str [''pos'', ''neg'', ''pos'', ''neg'', ''pos'', ''neg'', ''pos'', ''neg'', ''pos'', ''neg'']"

definition unset_model :: classification_model where
  "unset_model = example_model\<lparr>embedding := example_embedding\<lparr>sequence_length := 0\<rparr>\<rparr>"

definition three_sentences :: "string list list" where
  "three_sentences = [[''good'', ''film''], [''bad''], [''a'', ''very'', ''long'', ''dull'', ''film'']]"

definition three_targets :: "target list" where
  "three_targets = [Str ''pos'', Str ''neg'', Str ''neg'']"

definition four_sentences :: "string list list" where
  "four_sentences = [[''good'', ''film''], [''bad''], [''fine''], [''dull'', ''plot'']]"

definition four_targets :: "target list" where
  "four_targets = [Str ''pos'', Str ''neg'', Str ''pos'', Str ''neg'']"

definition score_rows :: "real list list" where
  "score_rows = [[0.7, 0.4, 0.61], [0.1, 0.9, 0.6]]"

definition score_network :: "x_input \<Rightarrow> real list list" where
  "score_network x =
     (case x of
        Tokens padded \<Rightarrow> take (length padded) score_rows
      | TokensSeg padded seg \<Rightarrow> take (length padded) score_rows)"

definition multi_example :: classification_model where
  "multi_example =
     \<lparr>embedding = example_embedding, multi_label = True,
      multi_label_binarizer =
        Some \<lparr>classes = [''sports'', ''politics'', ''tech''],
              classes_fitted = Some [''sports'', ''politics'', ''tech'']\<rparr>,
      label2idx = [(''sports'', 0), (''politics'', 1), (''tech'', 2)],
      idx2label = [(0, ''sports''), (1, ''politics''), (2, ''tech'')],
      model = Some score_network\<rparr>"

definition vote_network :: "x_input \<Rightarrow> real list list" where
  "vote_network x =
     (case x of
        Tokens padded \<Rightarrow> map (\<lambda>row. [0.2, 0.8]) padded
      | TokensSeg padded seg \<Rightarrow> map (\<lambda>row. [0.2, 0.8]) padded)"

definition single_example :: classification_model where
  "single_example = trained_example\<lparr>model := Some vote_network\<rparr>"

section \<open>Properties of the label index\<close>

subsection \<open>Dictionaries built from distinct keys\<close>

lemma update_fresh: "k \<notin> fst ` set d \<Longrightarrow> AList.update k v d = d @ [(k, v)]"
  by (induction d) auto

lemma dict_of_pairs_gen:
  "distinct (map fst d @ map fst ps) \<Longrightarrow> fold (\<lambda>(k, v) d. setitem d k v) ps d = d @ ps"
proof (induction ps arbitrary: d)
  case Nil
  then show ?case by simp
next
  case (Cons p ps)
  obtain k v where p: "p = (k, v)" by (cases p)
  from Cons.prems have fresh: "k \<notin> fst ` set d" by (auto simp: p)
  from Cons.prems have "distinct (map fst (d @ [(k, v)]) @ map fst ps)" by (auto simp: p)
  from Cons.IH[OF this] fresh show ?case by (simp add: p setitem_def update_fresh)
qed

lemma dict_of_pairs_distinct: "distinct (map fst ps) \<Longrightarrow> dict_of_pairs ps = ps"
  using dict_of_pairs_gen[of "[]" ps] by (simp add: dict_of_pairs_def)

lemma map_swap_zip: "map (\<lambda>(a, b). (b, a)) (zip xs ys) = zip ys xs"
proof (induction xs arbitrary: ys)
  case Nil
  then show ?case by simp
next
  case (Cons x xs)
  then show ?case by (cases ys) simp_all
qed

lemma enumerate_labels_fold:
  "fold (\<lambda>(idx, label) d. setitem d label idx) ps d = fold (\<lambda>(k, v) d. setitem d k v) (map (\<lambda>(i, l). (l, i)) ps) d"
  by (induction ps arbitrary: d) (auto)

lemma enumerate_labels_distinct:
  assumes "distinct ls"
  shows "enumerate_labels ls = zip ls (map int [0..<length ls])"
proof -
  have sw: "map (\<lambda>(i, l). (l, i)) (py_enumerate ls) = zip ls (map int [0..<length ls])"
    unfolding py_enumerate_def by (rule map_swap_zip)
  have "distinct (map fst (zip ls (map int [0..<length ls])))" using assms by simp
  with dict_of_pairs_gen[of "[]" "zip ls (map int [0..<length ls])"]
  show ?thesis unfolding enumerate_labels_def enumerate_labels_fold sw by simp
qed

lemma invert_enumerated:
  "invert_dict (zip ls (map int [0..<length ls])) = zip (map int [0..<length ls]) ls"
proof -
  have sw: "map (\<lambda>(key, val). (val, key)) (zip ls (map int [0..<length ls])) = zip (map int [0..<length ls]) ls"
    by (rule map_swap_zip)
  have "distinct (map fst (zip (map int [0..<length ls]) ls))" by (simp add: distinct_map)
  then show ?thesis unfolding invert_dict_def sw by (rule dict_of_pairs_distinct)
qed

subsection \<open>The index built from the targets\<close>

lemma invert_dict_injective:
  "distinct (map snd d) \<Longrightarrow> invert_dict d = map (\<lambda>(key, val). (val, key)) d"
  unfolding invert_dict_def by (rule dict_of_pairs_distinct) (simp add: case_prod_unfold comp_def)

lemma invert_lookup:
  assumes "distinct (map fst d)" "distinct (map snd d)" "map_of d l = Some i"
  shows "map_of (invert_dict d) i = Some l"
proof -
  from assms(3) have "(l, i) \<in> set d" by (rule map_of_SomeD)
  then have mem: "(i, l) \<in> set (map (\<lambda>(key, val). (val, key)) d)" by force
  have "distinct (map fst (map (\<lambda>(key, val). (val, key)) d))"
    using assms(2) by (simp add: case_prod_unfold comp_def)
  with mem show ?thesis by (simp add: invert_dict_injective[OF assms(2)])
qed

lemma set_of_targets_Inr: "set_of_targets ts = Inr ss \<Longrightarrow> ts = map Str ss"
  by (induction ts arbitrary: ss rule: set_of_targets.induct) (auto split: sum.splits)

lemma fold_append_items:
  "fold (\<lambda>i label_set. label_set @ target_items i) ts acc = acc @ concat (map target_items ts)"
  by (induction ts arbitrary: acc) simp_all

lemma set_label_set_of:
  assumes "label_set_of multi y_data = Inr label_set"
  shows "set label_set =
          (if multi then (\<Union>t \<in> set y_data. set (target_items t)) else {s. Str s \<in> set y_data})"
proof (cases multi)
  case True
  with assms show ?thesis by (auto simp: label_set_of_def fold_append_items)
next
  case False
  with assms have "y_data = map Str label_set" by (simp add: label_set_of_def set_of_targets_Inr)
  with False show ?thesis by auto
qed

lemma build_result:
  assumes "set_iteration_order set_iter"
    and "join_validate x_train y_train x_validate y_validate = Inr (x_data, y_data)"
    and "label_set_of (multi_label st) y_data = Inr label_set"
  shows "snd (build_token2id_label2id_dict set_iter st x_train y_train x_validate y_validate) = Inr ()"
    and "label2idx (fst (build_token2id_label2id_dict set_iter st x_train y_train x_validate y_validate))
          = zip (set_iter label_set) (map int [0..<length (set_iter label_set)])"
    and "idx2label (fst (build_token2id_label2id_dict set_iter st x_train y_train x_validate y_validate))
          = zip (map int [0..<length (set_iter label_set)]) (set_iter label_set)"
proof -
  from assms(1) have d: "distinct (set_iter label_set)" by (simp add: set_iteration_order_def)
  show "snd (build_token2id_label2id_dict set_iter st x_train y_train x_validate y_validate) = Inr ()"
    using assms(2,3) by (simp add: build_token2id_label2id_dict_def Let_def)
  show "label2idx (fst (build_token2id_label2id_dict set_iter st x_train y_train x_validate y_validate))
          = zip (set_iter label_set) (map int [0..<length (set_iter label_set)])"
    using assms(2,3) by (simp add: build_token2id_label2id_dict_def Let_def enumerate_labels_distinct[OF d])
  show "idx2label (fst (build_token2id_label2id_dict set_iter st x_train y_train x_validate y_validate))
          = zip (map int [0..<length (set_iter label_set)]) (set_iter label_set)"
    using assms(2,3)
    by (simp add: build_token2id_label2id_dict_def Let_def enumerate_labels_distinct[OF d] invert_enumerated)
qed

lemma build_success_cases:
  assumes "build_token2id_label2id_dict set_iter st x_train y_train x_validate y_validate = (st', Inr ())"
  obtains x_data y_data label_set where
    "join_validate x_train y_train x_validate y_validate = Inr (x_data, y_data)"
    "label_set_of (multi_label st) y_data = Inr label_set"
  using assms by (auto simp: build_token2id_label2id_dict_def Let_def split: sum.splits prod.splits)

subsection \<open>Comprehensions that may raise\<close>

lemma sequence_sum_KeyError:
  assumes "\<And>r. r \<in> set rs \<Longrightarrow> isl r \<Longrightarrow> r = Inl KeyError" "\<exists>r \<in> set rs. isl r"
  shows "sequence_sum rs = Inl KeyError"
  using assms
proof (induction rs)
  case Nil
  then show ?case by simp
next
  case (Cons r rs)
  show ?case
  proof (cases r)
    case (Inl e)
    with Cons.prems(1)[of r] show ?thesis by simp
  next
    case (Inr v)
    with Cons.prems have "\<exists>r \<in> set rs. isl r" by auto
    with Cons.IH Cons.prems(1) have "sequence_sum rs = Inl KeyError" by simp
    with Inr show ?thesis by simp
  qed
qed

lemma getitem_missing: "k \<notin> set (keys d) \<Longrightarrow> getitem d k = Inl KeyError"
  by (simp add: getitem_def keys_def map_of_eq_None_iff[THEN iffD2])

lemma getitem_isl: "isl (getitem d k) \<Longrightarrow> getitem d k = Inl KeyError"
  by (simp add: getitem_def split: option.splits)

subsection \<open>Unknown labels and ids\<close>

text \<open>
  Claim C9. For every label index and every label string that is not a key of it,
  \<open>convert_label_to_idx\<close> raises \<open>KeyError\<close>, for the label alone and for a list of
  label strings that contains it; and for every id that is not a key of the inverse
  index, \<open>convert_idx_to_label\<close> raises \<open>KeyError\<close>, for the id alone and for a list
  of ids that contains it. No default id and no default label is returned.
\<close>

theorem unseen_label_raises_KeyError:
  "(l \<notin> set (keys (label2idx st)) \<longrightarrow> convert_label_to_idx st (OneLabel l) = Inl KeyError) \<and>
   (l \<notin> set (keys (label2idx st)) \<and> l \<in> set ls \<longrightarrow>
      convert_label_to_idx st (ManyLabels (map Str ls)) = Inl KeyError) \<and>
   (i \<notin> set (keys (idx2label st)) \<longrightarrow> convert_idx_to_label st (OneIdx i) = Inl KeyError) \<and>
   (i \<notin> set (keys (idx2label st)) \<and> i \<in> set js \<longrightarrow>
      convert_idx_to_label st (ManyIdxs js) = Inl KeyError)"
proof (intro conjI impI)
  assume "l \<notin> set (keys (label2idx st))"
  then show "convert_label_to_idx st (OneLabel l) = Inl KeyError"
    by (simp add: getitem_missing)
next
  assume a: "l \<notin> set (keys (label2idx st)) \<and> l \<in> set ls"
  have "sequence_sum (map (lookup_target (label2idx st)) (map Str ls)) = Inl KeyError"
  proof (rule sequence_sum_KeyError)
    fix r assume "r \<in> set (map (lookup_target (label2idx st)) (map Str ls))" "isl r"
    then show "r = Inl KeyError" by (auto dest: getitem_isl)
  next
    from a have "isl (lookup_target (label2idx st) (Str l))" by (simp add: getitem_missing)
    with a show "\<exists>r \<in> set (map (lookup_target (label2idx st)) (map Str ls)). isl r" by force
  qed
  then show "convert_label_to_idx st (ManyLabels (map Str ls)) = Inl KeyError" by simp
next
  assume "i \<notin> set (keys (idx2label st))"
  then show "convert_idx_to_label st (OneIdx i) = Inl KeyError"
    by (simp add: getitem_missing)
next
  assume a: "i \<notin> set (keys (idx2label st)) \<and> i \<in> set js"
  have "sequence_sum (map (getitem (idx2label st)) js) = Inl KeyError"
  proof (rule sequence_sum_KeyError)
    fix r assume "r \<in> set (map (getitem (idx2label st)) js)" "isl r"
    then show "r = Inl KeyError" by (auto dest: getitem_isl)
  next
    from a have "isl (getitem (idx2label st) i)" by (simp add: getitem_missing)
    with a show "\<exists>r \<in> set (map (getitem (idx2label st)) js). isl r" by force
  qed
  then show "convert_idx_to_label st (ManyIdxs js) = Inl KeyError" by simp
qed

lemma remdups_order: "set_iteration_order remdups"
  by (simp add: set_iteration_order_def)

lemma reversed_order: "set_iteration_order reversed_iteration"
  by (simp add: set_iteration_order_def reversed_iteration_def)

lemma trained_example_label2idx: "label2idx trained_example = [(''pos'', 0), (''neg'', 1)]"
  by (simp add: trained_example_def build_token2id_label2id_dict_def join_validate_def
      label_set_of_def example_model_def enumerate_labels_def py_enumerate_def setitem_def
      Let_def upt_rec)

lemma trained_example_idx2label: "idx2label trained_example = [(0, ''pos''), (1, ''neg'')]"
  by (simp add: trained_example_def build_token2id_label2id_dict_def join_validate_def
      label_set_of_def example_model_def enumerate_labels_def py_enumerate_def setitem_def
      invert_dict_def dict_of_pairs_def Let_def upt_rec)

theorem unseen_label_raises_KeyError_witness:
  "convert_label_to_idx trained_example (OneLabel ''neutral'') = Inl KeyError \<and>
   convert_label_to_idx trained_example (ManyLabels (map Str [''pos'', ''neutral''])) = Inl KeyError \<and>
   convert_idx_to_label trained_example (OneIdx 2) = Inl KeyError \<and>
   convert_idx_to_label trained_example (ManyIdxs [0, 2]) = Inl KeyError"
  using unseen_label_raises_KeyError [of "''neutral''" trained_example "[''pos'', ''neutral'']" 2 "[0, 2]"]
  by (simp add: trained_example_label2idx trained_example_idx2label keys_def)

subsection \<open>Round trip\<close>

lemma round_trip_getitem:
  assumes "distinct (map fst d)" "distinct (map snd d)" "l \<in> set (keys d)"
  shows "\<exists>i. getitem d l = Inr i \<and> getitem (invert_dict d) i = Inr l"
proof -
  from assms(3) obtain i where "(l, i) \<in> set d" by (auto simp: keys_def)
  with assms(1) have m: "map_of d l = Some i" by simp
  from invert_lookup[OF assms(1,2) m] m show ?thesis by (simp add: getitem_def)
qed

lemma round_trip_list:
  assumes "distinct (map fst d)" "distinct (map snd d)" "set ls \<subseteq> set (keys d)"
  shows "\<exists>js. sequence_sum (map (lookup_target d) (map Str ls)) = Inr js \<and>
              sequence_sum (map (getitem (invert_dict d)) js) = Inr ls"
  using assms(3)
proof (induction ls)
  case Nil
  then show ?case by simp
next
  case (Cons l ls)
  then obtain js where js: "sequence_sum (map (lookup_target d) (map Str ls)) = Inr js"
    "sequence_sum (map (getitem (invert_dict d)) js) = Inr ls" by auto
  from Cons.prems round_trip_getitem[OF assms(1,2), of l]
  obtain i where "getitem d l = Inr i" "getitem (invert_dict d) i = Inr l" by auto
  with js show ?case by simp
qed

lemma built_index:
  assumes "set_iteration_order set_iter"
    and "build_token2id_label2id_dict set_iter st x_train y_train x_validate y_validate = (st', Inr ())"
  shows "distinct (map fst (label2idx st'))" "distinct (map snd (label2idx st'))"
    "idx2label st' = invert_dict (label2idx st')"
proof -
  from assms(2) obtain x_data y_data label_set where
    j: "join_validate x_train y_train x_validate y_validate = Inr (x_data, y_data)"
    and ls: "label_set_of (multi_label st) y_data = Inr label_set"
    by (rule build_success_cases)
  from assms(1) have d: "distinct (set_iter label_set)" by (simp add: set_iteration_order_def)
  from build_result(2)[OF assms(1) j ls] assms(2)
  have l2i: "label2idx st' = zip (set_iter label_set) (map int [0..<length (set_iter label_set)])"
    by simp
  from build_result(3)[OF assms(1) j ls] assms(2)
  have i2l: "idx2label st' = zip (map int [0..<length (set_iter label_set)]) (set_iter label_set)"
    by simp
  show "distinct (map fst (label2idx st'))" using d by (simp add: l2i)
  show "distinct (map snd (label2idx st'))" by (simp add: l2i distinct_map)
  show "idx2label st' = invert_dict (label2idx st')" by (simp add: l2i i2l invert_enumerated)
qed

text \<open>
  The same holds for an index assigned through the setter of \<open>label2idx\<close>, provided
  no two labels of the assigned dictionary share an id.
\<close>

lemma setter_round_trip:
  assumes "distinct (map fst d)" "distinct (map snd d)" "l \<in> set (keys d)"
  shows "\<exists>i. convert_label_to_idx (set_label2idx st d) (OneLabel l) = Inr (OneIdx i) \<and>
             convert_idx_to_label (set_label2idx st d) (OneIdx i) = Inr (OneName l)"
proof -
  from round_trip_getitem[OF assms] obtain i where
    "getitem d l = Inr i" "getitem (invert_dict d) i = Inr l" by blast
  then show ?thesis by (simp add: set_label2idx_def)
qed

text \<open>
  Claim C8. After \<open>build_token2id_label2id_dict\<close> has built the label index, every
  label of the index is mapped by \<open>convert_label_to_idx\<close> to an id that
  \<open>convert_idx_to_label\<close> maps back to the label; the same holds for a list of labels
  of the index, element by element.
\<close>

theorem label_round_trip:
  assumes "set_iteration_order set_iter"
    and "build_token2id_label2id_dict set_iter st x_train y_train x_validate y_validate = (st', Inr ())"
  shows "(l \<in> set (keys (label2idx st')) \<longrightarrow>
           (\<exists>i. convert_label_to_idx st' (OneLabel l) = Inr (OneIdx i) \<and>
                convert_idx_to_label st' (OneIdx i) = Inr (OneName l))) \<and>
         (set ls \<subseteq> set (keys (label2idx st')) \<longrightarrow>
           (\<exists>js. convert_label_to_idx st' (ManyLabels (map Str ls)) = Inr (ManyIdxs js) \<and>
                 convert_idx_to_label st' (ManyIdxs js) = Inr (ManyNames ls)))"
proof (intro conjI impI)
  note inv = built_index[OF assms]
  {
    assume "l \<in> set (keys (label2idx st'))"
    from round_trip_getitem[OF inv(1,2) this]
    obtain i where "getitem (label2idx st') l = Inr i" "getitem (idx2label st') i = Inr l"
      by (auto simp: inv(3))
    then show "\<exists>i. convert_label_to_idx st' (OneLabel l) = Inr (OneIdx i) \<and>
                convert_idx_to_label st' (OneIdx i) = Inr (OneName l)" by simp
  }
  {
    assume "set ls \<subseteq> set (keys (label2idx st'))"
    from round_trip_list[OF inv(1,2) this]
    obtain js where "sequence_sum (map (lookup_target (label2idx st')) (map Str ls)) = Inr js"
      "sequence_sum (map (getitem (idx2label st')) js) = Inr ls"
      by (auto simp: inv(3))
    then show "\<exists>js. convert_label_to_idx st' (ManyLabels (map Str ls)) = Inr (ManyIdxs js) \<and>
                 convert_idx_to_label st' (ManyIdxs js) = Inr (ManyNames ls)" by simp
  }
qed

lemma trained_example_built:
  "build_token2id_label2id_dict remdups example_model
     [[''good'', ''film''], [''bad'']] [Str ''pos'', Str ''neg''] None None = (trained_example, Inr ())"
  by (simp add: trained_example_def build_token2id_label2id_dict_def join_validate_def
      label_set_of_def example_model_def Let_def)

theorem label_round_trip_witness:
  "(\<exists>i. convert_label_to_idx trained_example (OneLabel ''neg'') = Inr (OneIdx i) \<and>
        convert_idx_to_label trained_example (OneIdx i) = Inr (OneName ''neg'')) \<and>
   (\<exists>js. convert_label_to_idx trained_example (ManyLabels (map Str [''neg'', ''pos'', ''neg''])) = Inr (ManyIdxs js) \<and>
         convert_idx_to_label trained_example (ManyIdxs js) = Inr (ManyNames [''neg'', ''pos'', ''neg'']))"
  using label_round_trip [OF remdups_order trained_example_built, of "''neg''" "[''neg'', ''pos'', ''neg'']"]
  by (simp add: trained_example_label2idx keys_def)

subsection \<open>Totality, uniqueness and order of the ids\<close>

text \<open>
  Claim C2, as the code has it. When the targets can be joined and collected (no
  \<open>TypeError\<close>), \<open>build_token2id_label2id_dict\<close> succeeds; the keys of the label
  index are exactly the distinct labels of the training targets, joined with the
  validation targets when \<open>x_validate\<close> is non-empty; no key comes twice; the ids are
  0, 1, ... up to the number of labels less one, each once; and they are given in the
  order in which the set of labels iterates, which is not the order of first
  appearance in general.
\<close>

theorem label_index_total_unique:
  assumes "set_iteration_order set_iter"
    and "join_validate x_train y_train x_validate y_validate = Inr (x_data, y_data)"
    and "label_set_of (multi_label st) y_data = Inr label_set"
  shows "\<exists>st'. build_token2id_label2id_dict set_iter st x_train y_train x_validate y_validate
                 = (st', Inr ()) \<and>
           set (keys (label2idx st')) = set label_set \<and>
           set label_set = (if multi_label st then (\<Union>t \<in> set y_data. set (target_items t))
                            else {s. Str s \<in> set y_data}) \<and>
           distinct (keys (label2idx st')) \<and>
           length (label2idx st') = card (set label_set) \<and>
           map snd (label2idx st') = map int [0..<card (set label_set)] \<and>
           keys (label2idx st') = set_iter label_set"
proof -
  let ?r = "build_token2id_label2id_dict set_iter st x_train y_train x_validate y_validate"
  let ?L = "set_iter label_set"
  from assms(1) have d: "distinct ?L" and s: "set ?L = set label_set"
    by (simp_all add: set_iteration_order_def)
  from d s have n: "length ?L = card (set label_set)" using distinct_card by fastforce
  have ok: "?r = (fst ?r, Inr ())"
    using build_result(1)[OF assms] by (simp add: prod_eq_iff)
  have l2i: "label2idx (fst ?r) = zip ?L (map int [0..<length ?L])"
    by (rule build_result(2)[OF assms])
  have "set (keys (label2idx (fst ?r))) = set label_set" by (simp add: l2i keys_def s)
  moreover have "distinct (keys (label2idx (fst ?r)))" by (simp add: l2i keys_def d)
  moreover have "length (label2idx (fst ?r)) = card (set label_set)" by (simp add: l2i n)
  moreover have "map snd (label2idx (fst ?r)) = map int [0..<card (set label_set)]"
    by (simp add: l2i n[symmetric])
  moreover have "keys (label2idx (fst ?r)) = ?L" by (simp add: l2i keys_def)
  moreover note set_label_set_of[OF assms(3)] ok
  ultimately show ?thesis by blast
qed

theorem label_index_total_unique_witness:
  "\<exists>st'. build_token2id_label2id_dict reversed_iteration example_model
            [[''good'', ''film''], [''bad'']] [Str ''pos'', Str ''neg'']
            (Some [[''fine'']]) (Some [Str ''neu'', Str ''pos'']) = (st', Inr ()) \<and>
         label2idx st' = [(''pos'', 0), (''neu'', 1), (''neg'', 2)]"
proof -
  have j: "join_validate [[''good'', ''film''], [''bad'']] [Str ''pos'', Str ''neg'']
             (Some [[''fine'']]) (Some [Str ''neu'', Str ''pos''])
           = Inr ([[''good'', ''film''], [''bad''], [''fine'']],
                  [Str ''pos'', Str ''neg'', Str ''neu'', Str ''pos''])"
    by (simp add: join_validate_def)
  have l: "label_set_of (multi_label example_model)
             [Str ''pos'', Str ''neg'', Str ''neu'', Str ''pos'']
           = Inr [''pos'', ''neg'', ''neu'', ''pos'']"
    by (simp add: label_set_of_def example_model_def)
  from label_index_total_unique [OF reversed_order j l]
  obtain st' where st': "build_token2id_label2id_dict reversed_iteration example_model
            [[''good'', ''film''], [''bad'']] [Str ''pos'', Str ''neg'']
            (Some [[''fine'']]) (Some [Str ''neu'', Str ''pos'']) = (st', Inr ())"
     and k: "keys (label2idx st') = reversed_iteration [''pos'', ''neg'', ''neu'', ''pos'']"
     and v: "map snd (label2idx st') = map int [0..<card (set [''pos'', ''neg'', ''neu'', ''pos''])]"
    by blast
  have c: "card (set [''pos'', ''neg'', ''neu'', ''pos'']) = 3" by (simp add: card_insert_if)
  have "label2idx st' = zip (keys (label2idx st')) (map snd (label2idx st'))"
    by (simp add: keys_def zip_map_fst_snd)
  also have "\<dots> = [(''pos'', 0), (''neu'', 1), (''neg'', 2)]"
    unfolding k v c by (simp add: reversed_iteration_def upt_rec)
  finally show ?thesis using st' by blast
qed

text \<open>
  With the targets \<open>pos\<close>, \<open>neg\<close> and a set that iterates \<open>neg\<close> before \<open>pos\<close>, the label
  seen first gets id 1.
\<close>

theorem first_seen_order_counterexample:
  "set_iteration_order reversed_iteration \<and>
   snd (build_token2id_label2id_dict reversed_iteration example_model
          [[''good'', ''film''], [''bad'']] [Str ''pos'', Str ''neg''] None None) = Inr () \<and>
   label2idx (fst (build_token2id_label2id_dict reversed_iteration example_model
          [[''good'', ''film''], [''bad'']] [Str ''pos'', Str ''neg''] None None))
     = [(''neg'', 0), (''pos'', 1)] \<and>
   keys (label2idx (fst (build_token2id_label2id_dict reversed_iteration example_model
          [[''good'', ''film''], [''bad'']] [Str ''pos'', Str ''neg''] None None)))
     \<noteq> first_seen [''pos'', ''neg'']"
proof -
  have b: "build_token2id_label2id_dict reversed_iteration example_model
     [[''good'', ''film''], [''bad'']] [Str ''pos'', Str ''neg''] None None
   = (example_model\<lparr>embedding := example_embedding\<lparr>tokenize_sentence := map (int \<circ> length)\<rparr>,
                    label2idx := [(''neg'', 0), (''pos'', 1)],
                    idx2label := [(0, ''neg''), (1, ''pos'')],
                    multi_label_binarizer :=
                      Some \<lparr>classes = [''neg'', ''pos''], classes_fitted = None\<rparr>\<rparr>,
      Inr ())"
    by (simp add: build_token2id_label2id_dict_def join_validate_def
      label_set_of_def example_model_def enumerate_labels_def py_enumerate_def setitem_def
      invert_dict_def dict_of_pairs_def keys_def reversed_iteration_def Let_def upt_rec
      example_embedding_def)
  show ?thesis unfolding b by (simp add: reversed_order first_seen_def keys_def)
qed

section \<open>Properties of the sentiment script\<close>

text \<open>
  Claim C10. Whenever both files can be read, \<open>load_data_and_label\<close> returns the texts
  of the positive lines followed by those of the negative lines, and a label array of
  twice as many entries as the negative file has lines: that many ones, then that many
  zeros. So the texts and the labels have different lengths whenever the two files
  have different numbers of lines.
\<close>

theorem load_data_and_label_lengths:
  assumes "readlines pos_filename = Some pos_lines" and "readlines neg_filename = Some neg_lines"
  shows "\<exists>x_text y. load_data_and_label readlines jieba_cut pos_filename neg_filename = Inr (x_text, y) \<and>
           length y = 2 * length neg_lines \<and>
           y = replicate (length neg_lines) 1 @ replicate (length neg_lines) 0 \<and>
           length x_text = length pos_lines + length neg_lines \<and>
           (length pos_lines \<noteq> length neg_lines \<longrightarrow> length x_text \<noteq> length y)"
  using assms by (auto simp: load_data_and_label_def Let_def map_replicate_const)

theorem load_data_and_label_lengths_witness:
  "\<exists>x_text y. load_data_and_label example_files example_cut ''pos.txt'' ''neg.txt'' = Inr (x_text, y) \<and>
           length y = 2 \<and> y = [1, 0] \<and> length x_text = 4 \<and> length x_text \<noteq> length y"
proof -
  have p: "example_files ''pos.txt'' = Some [''great movie '', ''loved it'', ''so good'']"
    by (simp add: example_files_def)
  have n: "example_files ''neg.txt'' = Some [''awful'']"
    by (simp add: example_files_def)
  from load_data_and_label_lengths [OF p n, of example_cut]
  show ?thesis by (auto simp: numeral_eq_Suc)
qed

section \<open>Properties of training\<close>

lemma fit_call_cases:
  assumes "fit set_iter build_model ccw st x_train y_train x_validate y_validate batch_size epochs cw
           = (st', Inr call)"
  obtains st1 u vdata vsteps w net steps where
    "length x_train = length y_train"
    "build_token2id_label2id_dict set_iter st x_train y_train x_validate y_validate = (st1, Inr u)"
    "prepare_model build_model st1 x_train = (st', Inr ())"
    "validation_kwargs st' x_validate y_validate (effective_batch_size (length x_train) batch_size)
       = Inr (vdata, vsteps)"
    "floordiv (int (length x_train)) (effective_batch_size (length x_train) batch_size) = Inr steps"
    "call = \<lparr>train_generator = (x_train, y_train, effective_batch_size (length x_train) batch_size,
                                 is_bert (embedding st')),
             steps_per_epoch = steps, epochs_given = epochs, class_weights = w,
             validation_data = vdata, validation_steps = vsteps\<rparr>"
  using assms unfolding fit_def Let_def
  by (auto split: if_splits prod.splits sum.splits option.splits)

lemma fit_state:
  "fst (fit set_iter build_model ccw st x_train y_train x_validate y_validate batch_size epochs cw) =
     (if length x_train \<noteq> length y_train then st
      else (case build_token2id_label2id_dict set_iter st x_train y_train x_validate y_validate of
              (st1, Inl e) \<Rightarrow> st1
            | (st1, Inr u) \<Rightarrow> fst (prepare_model build_model st1 x_train)))"
  unfolding fit_def Let_def
  by (auto split: if_splits prod.splits sum.splits option.splits)

lemma build_preserves:
  assumes "build_token2id_label2id_dict set_iter st x_train y_train x_validate y_validate = (st1, r)"
  shows "model st1 = model st"
    and "sequence_length (embedding st1) = sequence_length (embedding st)"
    and "is_bert (embedding st1) = is_bert (embedding st)"
    and "multi_label st1 = multi_label st"
  using assms unfolding build_token2id_label2id_dict_def Let_def
  by (auto split: sum.splits prod.splits)

lemma percentile_index_less: "0 < n \<Longrightarrow> percentile_index n < n"
  by (simp add: percentile_index_def)

lemma percentile_index_floor: "int (percentile_index n) = \<lfloor>0.95 * real n\<rfloor>"
proof -
  have "(0.95::real) * real n = real (95 * n) / real 100" by simp
  then have "\<lfloor>0.95 * real n\<rfloor> = \<lfloor>real (95 * n) / real 100\<rfloor>" by simp
  also have "\<dots> = int ((95 * n) div 100)" by (rule floor_divide_of_nat_eq)
  finally show ?thesis by (simp add: percentile_index_def)
qed

lemma prepare_model_sequence_length:
  "sequence_length (embedding (fst (prepare_model build_model st x_train))) =
     (if model st = None \<and> sequence_length (embedding st) = 0 \<and> x_train \<noteq> []
      then sort (map length x_train) ! percentile_index (length x_train)
      else sequence_length (embedding st))"
  using percentile_index_less[of "length x_train"]
  by (auto simp: prepare_model_def infer_sequence_length_def Let_def percentile_index_def
      split: option.splits)

text \<open>
  Claim C3. Whenever \<open>fit\<close> is called with a batch size larger than the number of
  training examples and reaches the call of \<open>fit_generator\<close>, the training generator,
  the validation generator (if there is one) and \<open>steps_per_epoch\<close> are all built from
  the batch size \<open>len(x_train) // 2\<close>. With 10 training examples and the batch size 64
  that is 5, as the witness shows by running \<open>fit\<close>.
\<close>

theorem fit_batch_size_halved:
  assumes "int (length x_train) < batch_size"
    and "fit set_iter build_model ccw st x_train y_train x_validate y_validate batch_size epochs cw
           = (st', Inr call)"
  shows "train_generator call
           = (x_train, y_train, int (length x_train) div 2, is_bert (embedding st')) \<and>
         floordiv (int (length x_train)) (int (length x_train) div 2) = Inr (steps_per_epoch call) \<and>
         (\<forall>xv yv b bert. validation_data call = Some (xv, yv, b, bert) \<longrightarrow>
             b = int (length x_train) div 2)"
proof -
  from assms(1) have e: "effective_batch_size (length x_train) batch_size = int (length x_train) div 2"
    by (simp add: effective_batch_size_def)
  from assms(2) show ?thesis
  proof (rule fit_call_cases)
    fix st1 u vdata vsteps w net steps
    assume v: "validation_kwargs st' x_validate y_validate
                 (effective_batch_size (length x_train) batch_size) = Inr (vdata, vsteps)"
      and f: "floordiv (int (length x_train)) (effective_batch_size (length x_train) batch_size)
                = Inr steps"
      and c: "call = \<lparr>train_generator = (x_train, y_train,
                          effective_batch_size (length x_train) batch_size, is_bert (embedding st')),
                       steps_per_epoch = steps, epochs_given = epochs, class_weights = w,
                       validation_data = vdata, validation_steps = vsteps\<rparr>"
    from v have "\<forall>xv yv b bert. vdata = Some (xv, yv, b, bert) \<longrightarrow> b = int (length x_train) div 2"
      unfolding e by (auto simp: validation_kwargs_def split: option.splits if_splits sum.splits)
    with f c show ?thesis unfolding e by simp
  qed
qed

lemma ten_lengths: "length ten_sentences = 10" "length ten_targets = 10"
  by (simp_all add: ten_sentences_def ten_targets_def)

lemma ten_built:
  "build_token2id_label2id_dict remdups example_model ten_sentences ten_targets None None
   = (example_model\<lparr>embedding := example_embedding\<lparr>tokenize_sentence := map (int \<circ> length)\<rparr>,
                    label2idx := [(''pos'', 0), (''neg'', 1)],
                    idx2label := [(0, ''pos''), (1, ''neg'')],
                    multi_label_binarizer :=
                      Some \<lparr>classes = [''pos'', ''neg''], classes_fitted = None\<rparr>\<rparr>,
      Inr ())"
  by (simp add: build_token2id_label2id_dict_def join_validate_def
      label_set_of_def example_model_def enumerate_labels_def py_enumerate_def setitem_def
      invert_dict_def dict_of_pairs_def keys_def Let_def upt_rec
      example_embedding_def ten_targets_def)

lemma ten_fit:
  "\<exists>st'. fit remdups example_network example_weights example_model ten_sentences ten_targets
          None None 64 5 False
        = (st', Inr \<lparr>train_generator = (ten_sentences, ten_targets, 5, False),
                     steps_per_epoch = 2, epochs_given = 5, class_weights = None,
                     validation_data = None, validation_steps = None\<rparr>)"
  apply (simp add: fit_def ten_lengths ten_built effective_batch_size_def Let_def)
  apply (simp add: prepare_model_def example_model_def example_embedding_def
      validation_kwargs_def class_weights_of_def floordiv_def Let_def ten_lengths)
  done

theorem fit_batch_size_halved_witness:
  "\<exists>st' call. fit remdups example_network example_weights example_model ten_sentences ten_targets
                 None None 64 5 False = (st', Inr call) \<and>
              train_generator call = (ten_sentences, ten_targets, 5, False) \<and>
              steps_per_epoch call = 2"
proof -
  from ten_fit obtain st' call where
    f: "fit remdups example_network example_weights example_model ten_sentences ten_targets
          None None 64 5 False = (st', Inr call)" by blast
  have lt: "int (length ten_sentences) < 64" by (simp add: ten_lengths)
  from fit_batch_size_halved [OF lt f]
  have "train_generator call = (ten_sentences, ten_targets, 5, is_bert (embedding st'))"
    and "steps_per_epoch call = 2"
    by (simp_all add: ten_lengths floordiv_def)
  moreover from ten_fit f have "train_generator call = (ten_sentences, ten_targets, 5, False)"
    by auto
  ultimately show ?thesis using f by auto
qed

text \<open>
  Claim C7, as the code has it. When \<open>fit\<close> is called on a non-empty training set with targets of the same
  number, no model built and the sequence length 0, and the label index can be built,
  it leaves in the embedding the sequence length found at index \<open>int(0.95 * N)\<close> of the
  sorted lengths of the \<open>N\<close> training inputs, whatever happens later in the call. When
  the model is already built or the sequence length is not 0, \<open>fit\<close> leaves the sequence
  length as it was, in every case.
\<close>

theorem fit_sequence_length:
  "(length x_train = length y_train \<and> x_train \<noteq> [] \<and>
    snd (build_token2id_label2id_dict set_iter st x_train y_train x_validate y_validate) = Inr () \<and>
    model st = None \<and> sequence_length (embedding st) = 0 \<longrightarrow>
      sequence_length (embedding (fst (fit set_iter build_model ccw st x_train y_train
                                          x_validate y_validate batch_size epochs cw)))
        = sort (map length x_train) ! percentile_index (length x_train) \<and>
      int (percentile_index (length x_train)) = \<lfloor>0.95 * real (length x_train)\<rfloor> \<and>
      percentile_index (length x_train) < length x_train) \<and>
   (model st \<noteq> None \<or> sequence_length (embedding st) \<noteq> 0 \<longrightarrow>
      sequence_length (embedding (fst (fit set_iter build_model ccw st x_train y_train
                                          x_validate y_validate batch_size epochs cw)))
        = sequence_length (embedding st))"
proof -
  let ?b = "build_token2id_label2id_dict set_iter st x_train y_train x_validate y_validate"
  obtain st1 r where b: "?b = (st1, r)" by (cases ?b)
  note p = build_preserves(1,2)[OF b]
  show ?thesis
  proof (intro conjI impI)
    assume a: "length x_train = length y_train \<and> x_train \<noteq> [] \<and> snd ?b = Inr () \<and>
               model st = None \<and> sequence_length (embedding st) = 0"
    with b have r: "r = Inr ()" by simp
    from a show "sequence_length (embedding (fst (fit set_iter build_model ccw st x_train y_train
                                          x_validate y_validate batch_size epochs cw)))
        = sort (map length x_train) ! percentile_index (length x_train)"
      by (simp add: fit_state b r prepare_model_sequence_length p)
    show "int (percentile_index (length x_train)) = \<lfloor>0.95 * real (length x_train)\<rfloor>"
      by (rule percentile_index_floor)
    from a have "x_train \<noteq> []" by blast
    then have "0 < length x_train" by simp
    then show "percentile_index (length x_train) < length x_train"
      by (rule percentile_index_less)
  next
    assume a: "model st \<noteq> None \<or> sequence_length (embedding st) \<noteq> 0"
    show "sequence_length (embedding (fst (fit set_iter build_model ccw st x_train y_train
                                          x_validate y_validate batch_size epochs cw)))
        = sequence_length (embedding st)"
    proof (cases "length x_train \<noteq> length y_train")
      case True
      then show ?thesis by (simp add: fit_state)
    next
      case False
      show ?thesis
      proof (cases r)
        case (Inl e)
        with False show ?thesis by (simp add: fit_state b p)
      next
        case (Inr u)
        with False a show ?thesis
          by (auto simp: fit_state b prepare_model_sequence_length p)
      qed
    qed
  qed
qed

lemma unset_built:
  "snd (build_token2id_label2id_dict remdups unset_model ten_sentences ten_targets None None) = Inr ()"
  by (simp add: build_token2id_label2id_dict_def join_validate_def label_set_of_def
      unset_model_def example_model_def Let_def ten_targets_def)

lemma ten_sorted: "percentile_index 10 = 9" "sort (map length ten_sentences) ! 9 = 9"
  by (simp_all add: ten_sentences_def percentile_index_def)

theorem fit_sequence_length_witness:
  "sequence_length (embedding (fst (fit remdups example_network example_weights unset_model
      ten_sentences ten_targets None None 64 5 False))) = 9 \<and>
   sequence_length (embedding (fst (fit remdups example_network example_weights example_model
      ten_sentences ten_targets None None 64 5 False))) = 4"
proof -
  have u: "model unset_model = None" "sequence_length (embedding unset_model) = 0"
    by (simp_all add: unset_model_def example_model_def)
  have e: "sequence_length (embedding example_model) = 4"
    by (simp add: example_model_def example_embedding_def)
  have n: "ten_sentences \<noteq> []" by (simp add: ten_sentences_def)
  from fit_sequence_length [of ten_sentences ten_targets remdups unset_model None None
      example_network example_weights 64 5 False]
    fit_sequence_length [of ten_sentences ten_targets remdups example_model None None
      example_network example_weights 64 5 False]
  show ?thesis
    by (simp add: ten_lengths unset_built u e n ten_sorted)
qed

text \<open>
  An empty training set, no model and the sequence length 0: line 200 raises
  \<open>IndexError\<close> and the sequence length stays 0.
\<close>

theorem empty_training_set_counterexample:
  "model unset_model = None \<and>
   sequence_length (embedding unset_model) = 0 \<and>
   snd (fit remdups example_network example_weights unset_model [] [] None None 64 5 False)
     = Inl IndexError \<and>
   sequence_length (embedding (fst (fit remdups example_network example_weights unset_model
                                      [] [] None None 64 5 False))) = 0"
  by (simp add: fit_def build_token2id_label2id_dict_def join_validate_def label_set_of_def
      unset_model_def example_model_def example_embedding_def enumerate_labels_def
      py_enumerate_def invert_dict_def dict_of_pairs_def keys_def prepare_model_def
      infer_sequence_length_def percentile_index_def effective_batch_size_def Let_def)

section \<open>Properties of the batch generator\<close>

subsection \<open>Slices and pages\<close>

lemma py_slice_nonneg:
  assumes "0 \<le> a" "0 \<le> b"
  shows "py_slice xs a b = take (nat b - nat a) (drop (nat a) xs)"
proof (cases "nat a < length xs")
  case True
  then show ?thesis using assms
    by (auto simp: py_slice_def slice_bound_def Let_def min_def)
next
  case False
  then show ?thesis using assms
    by (auto simp: py_slice_def slice_bound_def Let_def min_def)
qed

lemma length_py_slice_page:
  assumes "0 < B" "0 \<le> p"
  shows "length (py_slice xs (p * B) (p * B + B)) = min (nat B) (length xs - nat (p * B))"
proof -
  from assms have "0 \<le> p * B" by simp
  moreover from this assms have "0 \<le> p * B + B" by simp
  ultimately have "py_slice xs (p * B) (p * B + B)
      = take (nat (p * B + B) - nat (p * B)) (drop (nat (p * B)) xs)"
    by (rule py_slice_nonneg)
  moreover from assms \<open>0 \<le> p * B\<close> have "nat (p * B + B) - nat (p * B) = nat B" by linarith
  ultimately show ?thesis by (simp add: min.commute)
qed

lemma py_range_set: "set (py_range n) = {p. 0 \<le> p \<and> p < n}"
  by (auto simp: py_range_def)

lemma page_bounds:
  assumes "0 < B" "0 \<le> p" "p \<le> int n div B"
  shows "p < int n div B \<Longrightarrow> nat (p * B) + nat B \<le> n"
    and "p = int n div B \<Longrightarrow> n - nat (p * B) = nat (int n mod B)"
proof -
  have q: "(int n div B) * B \<le> int n"
    using div_mult_mod_eq[of "int n" B] pos_mod_sign[OF assms(1), of "int n"] by linarith
  {
    assume "p < int n div B"
    then have "p + 1 \<le> int n div B" by simp
    with assms(1) have "(p + 1) * B \<le> (int n div B) * B" by (intro mult_right_mono) simp_all
    with q have "p * B + B \<le> int n" by (simp add: algebra_simps)
    moreover from assms have "0 \<le> p * B" by simp
    ultimately show "nat (p * B) + nat B \<le> n" using assms(1) by linarith
  }
  {
    assume e: "p = int n div B"
    have "int n - (int n div B) * B = int n mod B"
      using div_mult_mod_eq[of "int n" B] by linarith
    then have "int n - p * B = int n mod B" unfolding e .
    moreover from assms have "0 \<le> p * B" by simp
    ultimately show "n - nat (p * B) = nat (int n mod B)" by linarith
  }
qed

lemma length_page_slice:
  assumes "0 < B" "0 \<le> p" "p \<le> int (length xs) div B"
  shows "length (py_slice xs (p * B) (p * B + B))
           = (if p < int (length xs) div B then nat B else nat (int (length xs) mod B))"
proof (cases "p < int (length xs) div B")
  case True
  from page_bounds(1)[OF assms True] show ?thesis
    using True by (simp add: length_py_slice_page[OF assms(1,2)])
next
  case False
  with assms have e: "p = int (length xs) div B" by simp
  have "int (length xs) mod B < B" using assms(1) by simp
  then have "nat (int (length xs) mod B) \<le> nat B" by simp
  with page_bounds(2)[OF assms e] False show ?thesis
    by (simp add: length_py_slice_page[OF assms(1,2)])
qed

lemma first_page: "0 < B \<Longrightarrow> py_slice xs 0 B = take (nat B) xs"
  using py_slice_nonneg[of 0 B xs] by simp

lemma select_page_eq:
  "select_page xs ys B p =
     (if py_slice xs (p * B) (p * B + B) = [] then (py_slice xs 0 B, py_slice ys 0 B)
      else (py_slice xs (p * B) (p * B + B), py_slice ys (p * B) (p * B + B)))"
  by (simp add: select_page_def Let_def)

lemma select_page_sizes:
  assumes "0 < B" "0 \<le> p" "p \<le> int (length xs) div B" "length ys = length xs"
  shows "length (fst (select_page xs ys B p))
           = (if p < int (length xs) div B then nat B
              else if int (length xs) mod B = 0 then min (nat B) (length xs)
              else nat (int (length xs) mod B))"
    and "length (snd (select_page xs ys B p)) = length (fst (select_page xs ys B p))"
proof -
  let ?s = "py_slice xs (p * B) (p * B + B)"
  from assms(4) have a: "p \<le> int (length ys) div B" using assms(3) by simp
  note lx = length_page_slice[OF assms(1,2,3)]
  note ly = length_page_slice[OF assms(1,2) a]
  have pos: "0 < nat B" using assms(1) by simp
  have m: "int (length xs) mod B = 0 \<longleftrightarrow> nat (int (length xs) mod B) = 0"
    using pos_mod_sign[OF assms(1), of "int (length xs)"] by auto
  show "length (fst (select_page xs ys B p))
           = (if p < int (length xs) div B then nat B
              else if int (length xs) mod B = 0 then min (nat B) (length xs)
              else nat (int (length xs) mod B))"
  proof (cases "?s = []")
    case True
    then have "length ?s = 0" by simp
    with lx pos have "\<not> p < int (length xs) div B" "nat (int (length xs) mod B) = 0"
      by (auto split: if_splits)
    with m True show ?thesis by (simp add: select_page_eq first_page[OF assms(1)] min.commute)
  next
    case False
    then have "length ?s \<noteq> 0" by simp
    with lx m have "p < int (length xs) div B \<or> int (length xs) mod B \<noteq> 0"
      by (auto split: if_splits)
    with False lx show ?thesis by (auto simp: select_page_eq)
  qed
  show "length (snd (select_page xs ys B p)) = length (fst (select_page xs ys B p))"
    using assms(4) by (simp add: select_page_eq lx ly first_page[OF assms(1)])
qed

subsection \<open>One batch\<close>

lemma sequence_sum_length: "sequence_sum rs = Inr vs \<Longrightarrow> length vs = length rs"
  by (induction rs arbitrary: vs) (auto split: sum.splits)

lemma to_categorical_length: "to_categorical y n = Inr rows \<Longrightarrow> length rows = length y"
  by (auto simp: to_categorical_def Let_def dest: sequence_sum_length split: if_splits)

lemma pad_sequences_rows:
  "pad_sequences seqs n = Inr rows \<Longrightarrow> rows = map (pad_row n) seqs"
  by (auto simp: pad_sequences_def split: if_splits)

lemma pad_sequences_positive: "0 < n \<Longrightarrow> pad_sequences seqs n = Inr (map (pad_row n) seqs)"
  by (simp add: pad_sequences_def)

lemma length_pad_row: "length (pad_row n s) = n"
  by (simp add: pad_row_def Let_def)

lemma pad_row_cases:
  "pad_row n s = (if length s \<le> n then s @ replicate (n - length s) 0
                  else drop (length s - n) s)"
  by (simp add: pad_row_def Let_def)

lemma encode_targets_embedding: "embedding (fst (encode_targets st ty)) = embedding st"
  by (auto simp: encode_targets_def split: option.splits sum.splits prod.splits)

lemma encode_targets_length:
  assumes "encode_targets st ty = (st', Inr py)"
  shows "length py = length ty"
proof (cases "multi_label st")
  case True
  with assms show ?thesis
    by (auto simp: encode_targets_def fit_transform_def binarizer_transform_def
        split: option.splits sum.splits prod.splits if_splits)
next
  case False
  show ?thesis
  proof (cases "sequence_sum (map (lookup_target (label2idx st)) ty)")
    case (Inl e)
    with assms False show ?thesis by (simp add: encode_targets_def)
  next
    case (Inr js)
    then have l: "length js = length ty" by (auto dest: sequence_sum_length)
    from assms False have "to_categorical js (length (label2idx st)) = Inr py"
      by (auto simp: encode_targets_def Inr)
    with l show ?thesis by (auto dest: to_categorical_length)
  qed
qed

lemma yield_page_embedding: "embedding (fst (yield_page st xs ys B bert p)) = embedding st"
proof -
  obtain tx ty where s: "select_page xs ys B p = (tx, ty)" by (cases "select_page xs ys B p")
  obtain st' r where e: "encode_targets st ty = (st', r)" by (cases "encode_targets st ty")
  from encode_targets_embedding[of st ty] e have "embedding st' = embedding st" by simp
  then show ?thesis by (simp add: yield_page_def s e Let_def split: sum.splits)
qed

lemma yield_page_batch:
  assumes "yield_page st xs ys B bert p = (st', Inr b)"
  shows "token_array b = map (pad_row (sequence_length (embedding st)))
                           (map (tokenize_sentence (embedding st)) (fst (select_page xs ys B p)))"
    and "length (snd b) = length (snd (select_page xs ys B p))"
    and "fst (select_page xs ys B p) \<noteq> []"
proof -
  obtain tx ty where s: "select_page xs ys B p = (tx, ty)" by (cases "select_page xs ys B p")
  obtain st1 r where e: "encode_targets st ty = (st1, r)" by (cases "encode_targets st ty")
  from assms obtain toks where t: "tokenize (embedding st) tx = Inr toks"
    by (auto simp: yield_page_def s split: sum.splits)
  then have ne: "tx \<noteq> []" and toks: "toks = map (tokenize_sentence (embedding st)) tx"
    by (auto simp: tokenize_def split: if_splits)
  from assms t obtain rows where p: "pad_sequences toks (sequence_length (embedding st)) = Inr rows"
    by (auto simp: yield_page_def s split: sum.splits)
  note rows = pad_sequences_rows[OF p]
  from assms obtain py where r: "r = Inr py"
    and b: "b = (if bert then TokensSeg rows (zeros (length rows) (sequence_length (embedding st)))
                 else Tokens rows, py)"
    by (auto simp: yield_page_def s t p e split: sum.splits)
  show "token_array b = map (pad_row (sequence_length (embedding st)))
                           (map (tokenize_sentence (embedding st)) (fst (select_page xs ys B p)))"
    by (simp add: b s token_array_def rows toks)
  from e r encode_targets_length have "length py = length ty" by blast
  then show "length (snd b) = length (snd (select_page xs ys B p))" by (simp add: b s)
  from ne show "fst (select_page xs ys B p) \<noteq> []" by (simp add: s)
qed

text \<open>With a positive sequence length only the target encoding can fail on a non-empty page.\<close>

lemma yield_page_error:
  assumes "0 < sequence_length (embedding st)" and "fst (select_page xs ys B p) \<noteq> []"
    and "snd (yield_page st xs ys B bert p) = Inl e"
  shows "snd (encode_targets st (snd (select_page xs ys B p))) = Inl e"
proof -
  obtain tx ty where s: "select_page xs ys B p = (tx, ty)" by (cases "select_page xs ys B p")
  obtain st1 r where en: "encode_targets st ty = (st1, r)" by (cases "encode_targets st ty")
  from assms(2) s have t: "tokenize (embedding st) tx = Inr (map (tokenize_sentence (embedding st)) tx)"
    by (simp add: tokenize_def)
  from assms(3) show ?thesis
    by (simp add: yield_page_def s t pad_sequences_positive[OF assms(1)] en split: sum.splits)
qed

subsection \<open>The page taken for a page\<close>

lemma yield_page_taken:
  "yield_page st xs ys B bert (page_taken xs B p) = yield_page st xs ys B bert p"
  by (simp add: yield_page_def select_page_eq page_taken_def)

lemma for_pages_taken:
  "for_pages st xs ys B bert (map (page_taken xs B) pages) = for_pages st xs ys B bert pages"
  by (induction pages arbitrary: st) (simp_all add: yield_page_taken split: prod.splits sum.splits)

lemma generator_taken:
  "get_data_generator st xs ys B bert (map (\<lambda>shuffled. map (page_taken xs B) \<circ> shuffled) passes)
     = get_data_generator st xs ys B bert passes"
  by (induction passes arbitrary: st)
     (simp_all add: for_pages_taken split: prod.splits sum.splits option.splits)

lemma select_page_taken:
  assumes "0 < B" "0 \<le> p"
  shows "select_page xs ys B p
           = (take (nat B) (drop (nat (page_taken xs B p * B)) xs),
              take (nat B) (drop (nat (page_taken xs B p * B)) ys))"
proof (cases "py_slice xs (p * B) (p * B + B) = []")
  case True
  then show ?thesis by (simp add: select_page_eq page_taken_def first_page[OF assms(1)])
next
  case False
  from assms have n: "0 \<le> p * B" "0 \<le> p * B + B" by simp_all
  from assms n(1) have d: "nat (p * B + B) - nat (p * B) = nat B" by linarith
  from False show ?thesis
    by (simp add: select_page_eq page_taken_def py_slice_nonneg[OF n] d)
qed

subsection \<open>The batches in the order of the pages\<close>

lemma for_pages_embedding:
  "for_pages st xs ys B bert pages = (st', bs, r) \<Longrightarrow> embedding st' = embedding st"
proof (induction pages arbitrary: st st' bs r)
  case Nil
  then show ?case by simp
next
  case (Cons p pages)
  obtain s1 o1 where y: "yield_page st xs ys B bert p = (s1, o1)"
    by (cases "yield_page st xs ys B bert p")
  from yield_page_embedding[of st xs ys B bert p] y have e1: "embedding s1 = embedding st" by simp
  show ?case
  proof (cases o1)
    case (Inl e)
    with Cons.prems e1 show ?thesis by (simp add: y)
  next
    case (Inr b1)
    obtain s2 bs2 r2 where f: "for_pages s1 xs ys B bert pages = (s2, bs2, r2)"
      by (cases "for_pages s1 xs ys B bert pages")
    from Cons.IH[OF f] e1 have "embedding s2 = embedding st" by simp
    with Cons.prems show ?thesis by (simp add: y Inr f)
  qed
qed

lemma for_pages_index:
  "for_pages st xs ys B bert pages = (st', bs, r) \<Longrightarrow>
     length bs \<le> length pages \<and> (r = None \<longrightarrow> length bs = length pages) \<and>
     (\<forall>k < length bs. \<exists>s s'. embedding s = embedding st \<and>
         yield_page s xs ys B bert (pages ! k) = (s', Inr (bs ! k)))"
proof (induction pages arbitrary: st st' bs r)
  case Nil
  then show ?case by simp
next
  case (Cons p pages)
  obtain s1 o1 where y: "yield_page st xs ys B bert p = (s1, o1)"
    by (cases "yield_page st xs ys B bert p")
  from yield_page_embedding[of st xs ys B bert p] y have e1: "embedding s1 = embedding st" by simp
  show ?case
  proof (cases o1)
    case (Inl e)
    with Cons.prems show ?thesis by (auto simp: y)
  next
    case (Inr b1)
    obtain s2 bs2 r2 where f: "for_pages s1 xs ys B bert pages = (s2, bs2, r2)"
      by (cases "for_pages s1 xs ys B bert pages")
    from Cons.prems have bs: "bs = b1 # bs2" and r: "r = r2" by (simp_all add: y Inr f)
    note ih = Cons.IH[OF f]
    have "\<exists>s s'. embedding s = embedding st \<and>
            yield_page s xs ys B bert ((p # pages) ! k) = (s', Inr (bs ! k))"
      if k: "k < length bs" for k
    proof (cases k)
      case 0
      with y Inr bs show ?thesis by auto
    next
      case (Suc j)
      with k bs have "j < length bs2" by simp
      with ih obtain s s' where "embedding s = embedding s1"
        "yield_page s xs ys B bert (pages ! j) = (s', Inr (bs2 ! j))" by blast
      with e1 Suc bs show ?thesis by auto
    qed
    with ih bs r show ?thesis by simp
  qed
qed

lemma generator_index:
  assumes "B \<noteq> 0"
  shows "get_data_generator st xs ys B bert passes = (st', bs, r) \<Longrightarrow>
     length bs \<le> length (visited_pages (length xs) B passes) \<and>
     (r = None \<longrightarrow> length bs = length (visited_pages (length xs) B passes)) \<and>
     (\<forall>k < length bs. \<exists>s s'. embedding s = embedding st \<and>
         yield_page s xs ys B bert (visited_pages (length xs) B passes ! k) = (s', Inr (bs ! k)))"
proof (induction passes arbitrary: st st' bs r)
  case Nil
  then show ?case by (simp add: visited_pages_def)
next
  case (Cons sh passes)
  let ?pl = "sh (py_range (int (length xs) div B + 1))"
  have q: "floordiv (int (length xs)) B = Inr (int (length xs) div B)"
    using assms by (simp add: floordiv_def)
  have v: "visited_pages (length xs) B (sh # passes) = ?pl @ visited_pages (length xs) B passes"
    by (simp add: visited_pages_def)
  obtain s1 bs1 r1 where f: "for_pages st xs ys B bert ?pl = (s1, bs1, r1)"
    by (cases "for_pages st xs ys B bert ?pl")
  note e1 = for_pages_embedding[OF f]
  note i1 = for_pages_index[OF f]
  show ?case
  proof (cases r1)
    case (Some e)
    with Cons.prems have bs: "bs = bs1" and r: "r = Some e" by (simp_all add: q f)
    have "\<exists>s s'. embedding s = embedding st \<and>
            yield_page s xs ys B bert ((?pl @ visited_pages (length xs) B passes) ! k)
              = (s', Inr (bs ! k))" if "k < length bs" for k
    proof -
      from that bs i1 have "k < length ?pl" by simp
      then have "(?pl @ visited_pages (length xs) B passes) ! k = ?pl ! k" by (simp add: nth_append)
      with that bs i1 show ?thesis by auto
    qed
    with i1 bs r show ?thesis unfolding v by simp
  next
    case None
    obtain s2 bs2 r2 where g: "get_data_generator s1 xs ys B bert passes = (s2, bs2, r2)"
      by (cases "get_data_generator s1 xs ys B bert passes")
    from Cons.prems have bs: "bs = bs1 @ bs2" and r: "r = r2" by (simp_all add: q f None g)
    from i1 None have l1: "length bs1 = length ?pl" by simp
    note ih = Cons.IH[OF g]
    have "\<exists>s s'. embedding s = embedding st \<and>
            yield_page s xs ys B bert ((?pl @ visited_pages (length xs) B passes) ! k)
              = (s', Inr (bs ! k))" if k: "k < length bs" for k
    proof (cases "k < length bs1")
      case True
      with l1 have "(?pl @ visited_pages (length xs) B passes) ! k = ?pl ! k"
        and "bs ! k = bs1 ! k" by (simp_all add: nth_append bs)
      with True i1 show ?thesis by auto
    next
      case False
      with k bs have j: "k - length bs1 < length bs2" by simp
      from False l1 have "(?pl @ visited_pages (length xs) B passes) ! k
          = visited_pages (length xs) B passes ! (k - length bs1)"
        and "bs ! k = bs2 ! (k - length bs1)" by (simp_all add: nth_append bs)
      moreover from ih j obtain s s' where "embedding s = embedding s1"
        "yield_page s xs ys B bert (visited_pages (length xs) B passes ! (k - length bs1))
           = (s', Inr (bs2 ! (k - length bs1)))" by blast
      ultimately show ?thesis using e1 by auto
    qed
    with ih l1 bs r show ?thesis unfolding v by simp
  qed
qed

lemma visited_page_range:
  assumes "\<forall>sh \<in> set passes. shuffle_outcome sh" and "k < length (visited_pages n B passes)"
  shows "0 \<le> visited_pages n B passes ! k \<and> visited_pages n B passes ! k \<le> int n div B"
proof -
  from assms(2) have "visited_pages n B passes ! k \<in> set (visited_pages n B passes)" by simp
  then obtain sh where sh: "sh \<in> set passes"
    and m: "visited_pages n B passes ! k \<in> set (sh (py_range (int n div B + 1)))"
    by (auto simp: visited_pages_def)
  from assms(1) sh have "set (sh (py_range (int n div B + 1))) = set (py_range (int n div B + 1))"
    by (auto simp: shuffle_outcome_def dest: mset_eq_setD)
  with m show ?thesis by (simp add: py_range_set)
qed

lemma trained_example_eq:
  "trained_example =
     \<lparr>embedding = \<lparr>sequence_length = 4, is_bert = False,
                   tokenize_sentence = map (int \<circ> length),
                   build_token2idx_dict = (\<lambda>corpus min_count. map (int \<circ> length))\<rparr>,
      multi_label = False,
      multi_label_binarizer = Some \<lparr>classes = [''pos'', ''neg''], classes_fitted = None\<rparr>,
      label2idx = [(''pos'', 0), (''neg'', 1)],
      idx2label = [(0, ''pos''), (1, ''neg'')],
      model = None\<rparr>"
  by (simp add: trained_example_def build_token2id_label2id_dict_def join_validate_def
      label_set_of_def example_model_def example_embedding_def enumerate_labels_def
      py_enumerate_def setitem_def invert_dict_def dict_of_pairs_def keys_def Let_def upt_rec)

lemma shuffle_outcome_id: "shuffle_outcome id"
  by (simp add: shuffle_outcome_def)

lemma three_run:
  "get_data_generator trained_example three_sentences three_targets 2 False [id]
   = (trained_example,
      [(Tokens [[4, 4, 0, 0], [3, 0, 0, 0]], [[1, 0], [0, 1]]),
       (Tokens [[4, 4, 4, 4]], [[0, 1]])],
      None)"
  by (simp add: trained_example_eq three_sentences_def three_targets_def floordiv_def
      py_range_def yield_page_def select_page_def py_slice_def slice_bound_def tokenize_def
      pad_sequences_def pad_row_def encode_targets_def getitem_def to_categorical_def
      one_hot_def Let_def upto.simps numeral_2_eq_2 numeral_3_eq_3)

lemma three_visited: "visited_pages (length three_sentences) 2 [id] = [0, 1]"
  by (simp add: visited_pages_def three_sentences_def py_range_def upto.simps)

subsection \<open>Shape of the batches\<close>

text \<open>
  Claim C1, as the code has it. For parallel arrays of length \<open>N\<close> and a batch size
  \<open>B\<close> with \<open>0 < B \<le> N\<close>, in any passes and for any outcome of the shuffling, the
  generator yields one batch for each page it reaches, in the order of the pages, up to
  an exception if there is one. The batch of a page holds the examples of that page
  (of the first page, for a page whose slice is empty): exactly \<open>B\<close> of them, except
  that the last page holds the \<open>N mod B\<close> remaining examples when \<open>B\<close> does not divide
  \<open>N\<close>. Its token array has one row for each example, of the configured sequence
  length: the tokens of the example followed by zeros when they are not more than
  that, their last tokens when they are more. There are as many target rows as token
  rows.
\<close>

theorem generator_batch_shape:
  assumes "0 < batch_size" and "batch_size \<le> int (length x_data)"
    and "length y_data = length x_data"
    and "\<forall>sh \<in> set passes. shuffle_outcome sh"
    and "get_data_generator st x_data y_data batch_size bert passes = (st', bs, r)"
  shows "length bs \<le> length (visited_pages (length x_data) batch_size passes) \<and>
         (r = None \<longrightarrow> length bs = length (visited_pages (length x_data) batch_size passes)) \<and>
         (\<forall>k < length bs.
            token_array (bs ! k)
              = map (\<lambda>s. if length (tokenize_sentence (embedding st) s)
                              \<le> sequence_length (embedding st)
                          then tokenize_sentence (embedding st) s
                               @ replicate (sequence_length (embedding st)
                                            - length (tokenize_sentence (embedding st) s)) 0
                          else drop (length (tokenize_sentence (embedding st) s)
                                     - sequence_length (embedding st))
                                 (tokenize_sentence (embedding st) s))
                    (take (nat batch_size)
                       (drop (nat (page_taken x_data batch_size
                                     (visited_pages (length x_data) batch_size passes ! k)
                                   * batch_size)) x_data)) \<and>
            (\<forall>row \<in> set (token_array (bs ! k)). length row = sequence_length (embedding st)) \<and>
            length (snd (bs ! k)) = length (token_array (bs ! k)) \<and>
            int (length (token_array (bs ! k)))
              = (if visited_pages (length x_data) batch_size passes ! k
                      < int (length x_data) div batch_size
                    \<or> int (length x_data) mod batch_size = 0
                 then batch_size else int (length x_data) mod batch_size))"
proof -
  let ?v = "visited_pages (length x_data) batch_size passes"
  let ?L = "sequence_length (embedding st)"
  from assms(1) have nz: "batch_size \<noteq> 0" by simp
  note gi = generator_index[OF nz assms(5)]
  have main: "token_array (bs ! k)
              = map (\<lambda>s. if length (tokenize_sentence (embedding st) s) \<le> ?L
                          then tokenize_sentence (embedding st) s
                               @ replicate (?L - length (tokenize_sentence (embedding st) s)) 0
                          else drop (length (tokenize_sentence (embedding st) s) - ?L)
                                 (tokenize_sentence (embedding st) s))
                    (take (nat batch_size)
                       (drop (nat (page_taken x_data batch_size (?v ! k) * batch_size)) x_data)) \<and>
            (\<forall>row \<in> set (token_array (bs ! k)). length row = ?L) \<and>
            length (snd (bs ! k)) = length (token_array (bs ! k)) \<and>
            int (length (token_array (bs ! k)))
              = (if ?v ! k < int (length x_data) div batch_size
                    \<or> int (length x_data) mod batch_size = 0
                 then batch_size else int (length x_data) mod batch_size)"
    if k: "k < length bs" for k
  proof -
    from gi k obtain s s' where e: "embedding s = embedding st"
      and y: "yield_page s x_data y_data batch_size bert (?v ! k) = (s', Inr (bs ! k))" by blast
    from gi k have "k < length ?v" by simp
    from visited_page_range[OF assms(4) this]
    have p0: "0 \<le> ?v ! k" and pq: "?v ! k \<le> int (length x_data) div batch_size" by simp_all
    let ?sel = "select_page x_data y_data batch_size (?v ! k)"
    note t = yield_page_batch[OF y]
    have sel: "fst ?sel = take (nat batch_size)
                 (drop (nat (page_taken x_data batch_size (?v ! k) * batch_size)) x_data)"
      by (simp add: select_page_taken[OF assms(1) p0])
    have ta: "token_array (bs ! k)
                = map (pad_row ?L) (map (tokenize_sentence (embedding st)) (fst ?sel))"
      using t(1) by (simp add: e)
    note sz = select_page_sizes[OF assms(1) p0 pq assms(3)]
    from assms(1,2) have mn: "min (nat batch_size) (length x_data) = nat batch_size" by simp
    have md: "0 \<le> int (length x_data) mod batch_size" using assms(1) by simp
    have rows: "length (token_array (bs ! k)) = length (fst ?sel)" by (simp add: ta)
    have c1: "token_array (bs ! k)
              = map (\<lambda>s. if length (tokenize_sentence (embedding st) s) \<le> ?L
                          then tokenize_sentence (embedding st) s
                               @ replicate (?L - length (tokenize_sentence (embedding st) s)) 0
                          else drop (length (tokenize_sentence (embedding st) s) - ?L)
                                 (tokenize_sentence (embedding st) s))
                    (take (nat batch_size)
                       (drop (nat (page_taken x_data batch_size (?v ! k) * batch_size)) x_data))"
      unfolding ta sel by (simp add: pad_row_cases comp_def)
    have c2: "\<forall>row \<in> set (token_array (bs ! k)). length row = ?L"
      unfolding ta by (auto simp: length_pad_row)
    have c3: "length (snd (bs ! k)) = length (token_array (bs ! k))"
      using t(2) sz(2) rows by simp
    have c4: "int (length (token_array (bs ! k)))
              = (if ?v ! k < int (length x_data) div batch_size
                    \<or> int (length x_data) mod batch_size = 0
                 then batch_size else int (length x_data) mod batch_size)"
      using assms(1) md by (simp add: rows sz(1) mn)
    from c1 c2 c3 c4 show ?thesis by blast
  qed
  from gi main show ?thesis by blast
qed

theorem generator_batch_shape_witness:
  "token_array (fst (snd (get_data_generator trained_example three_sentences three_targets
                            2 False [id])) ! 0) = [[4, 4, 0, 0], [3, 0, 0, 0]] \<and>
   token_array (fst (snd (get_data_generator trained_example three_sentences three_targets
                            2 False [id])) ! 1) = [[4, 4, 4, 4]] \<and>
   length (snd (fst (snd (get_data_generator trained_example three_sentences three_targets
                            2 False [id])) ! 1)) = 1 \<and>
   length (fst (snd (get_data_generator trained_example three_sentences three_targets
                            2 False [id]))) = 2"
proof -
  let ?bs = "[(Tokens [[4, 4, 0, 0], [3, 0, 0, 0]], [[1, 0], [0, 1]]),
              (Tokens [[4, 4, 4, 4]], [[0, 1 :: int]])]"
  have l: "(2::int) \<le> int (length three_sentences)" "length three_targets = length three_sentences"
    by (simp_all add: three_sentences_def three_targets_def)
  have s: "\<forall>sh \<in> set [id]. shuffle_outcome sh" by (simp add: shuffle_outcome_id)
  have z: "(0::int) < 2" by simp
  note g = generator_batch_shape [OF z l s three_run]
  from g have n: "length ?bs = length (visited_pages (length three_sentences) 2 [id])" by blast
  from g have a: "\<forall>k < length ?bs.
      token_array (?bs ! k)
        = map (\<lambda>s. if length (tokenize_sentence (embedding trained_example) s)
                        \<le> sequence_length (embedding trained_example)
                    then tokenize_sentence (embedding trained_example) s
                         @ replicate (sequence_length (embedding trained_example)
                                      - length (tokenize_sentence (embedding trained_example) s)) 0
                    else drop (length (tokenize_sentence (embedding trained_example) s)
                               - sequence_length (embedding trained_example))
                           (tokenize_sentence (embedding trained_example) s))
              (take (nat 2)
                 (drop (nat (page_taken three_sentences 2
                               (visited_pages (length three_sentences) 2 [id] ! k) * 2))
                    three_sentences)) \<and>
      length (snd (?bs ! k)) = length (token_array (?bs ! k))" by blast
  from a have a0: "token_array (?bs ! 0) = [[4, 4, 0, 0], [3, 0, 0, 0]]"
    by (simp add: token_array_def)
  from a have a1: "token_array (?bs ! 1) = [[4, 4, 4, 4]]"
    and b1: "length (snd (?bs ! 1)) = 1"
    by (simp_all add: token_array_def)
  from n a0 a1 b1 show ?thesis unfolding three_run by (simp add: three_visited)
qed

text \<open>
  Three examples in batches of two: the second page yields a batch of one example.
\<close>

theorem fixed_batch_size_counterexample:
  "(2::int) \<le> int (length three_sentences) \<and>
   length three_targets = length three_sentences \<and>
   shuffle_outcome id \<and>
   get_data_generator trained_example three_sentences three_targets 2 False [id]
   = (trained_example,
      [(Tokens [[4, 4, 0, 0], [3, 0, 0, 0]], [[1, 0], [0, 1]]),
       (Tokens [[4, 4, 4, 4]], [[0, 1]])],
      None) \<and>
   length (token_array (Tokens [[4, 4, 4, 4]], [[0, 1]])) = 1"
  using three_run shuffle_outcome_id
  by (simp add: three_sentences_def three_targets_def token_array_def)

subsection \<open>The empty trailing page\<close>

lemma four_run:
  "get_data_generator trained_example four_sentences four_targets 2 False [id]
   = (trained_example,
      [(Tokens [[4, 4, 0, 0], [3, 0, 0, 0]], [[1, 0], [0, 1]]),
       (Tokens [[4, 0, 0, 0], [4, 4, 0, 0]], [[1, 0], [0, 1]]),
       (Tokens [[4, 4, 0, 0], [3, 0, 0, 0]], [[1, 0], [0, 1]])],
      None)"
  by (simp add: trained_example_eq four_sentences_def four_targets_def floordiv_def
      py_range_def yield_page_def select_page_def py_slice_def slice_bound_def tokenize_def
      pad_sequences_def pad_row_def encode_targets_def getitem_def to_categorical_def
      one_hot_def Let_def upto.simps numeral_2_eq_2 numeral_3_eq_3)

lemma four_visited: "visited_pages (length four_sentences) 2 [id] = [0, 1, 2]"
  by (simp add: visited_pages_def four_sentences_def py_range_def upto.simps)

lemma four_slice: "py_slice four_sentences (2 * 2) (2 * 2 + 2) = []"
  by (simp add: py_slice_def slice_bound_def four_sentences_def)

text \<open>
  Claim C4, as the code has it. For non-empty input arrays and a positive batch size,
  in any passes and for any outcome of the shuffling: a page the generator reaches
  selects an empty slice only if it is the last page and the batch size divides the
  number of inputs. The generator takes the first page (elements 0 to \<open>batch_size\<close>)
  of the input and of the label array in its place, and the batch it yields for the
  page is the batch of those examples, which is not empty, built as for page 0. The
  generator as a whole does what it would do with page 0 in the place of every such
  page, and no batch it yields is empty. With a positive sequence length, an exception
  raised for such a page is one raised by encoding the labels of the first page.
\<close>

theorem empty_page_substituted:
  assumes "x_data \<noteq> []" and "0 < batch_size"
    and "\<forall>sh \<in> set passes. shuffle_outcome sh"
    and "k < length (visited_pages (length x_data) batch_size passes)"
    and "visited_pages (length x_data) batch_size passes ! k = page"
    and "py_slice x_data (page * batch_size) (page * batch_size + batch_size) = []"
    and "get_data_generator st x_data y_data batch_size bert passes = (st', bs, r)"
  shows "page = int (length x_data) div batch_size \<and>
         int (length x_data) mod batch_size = 0 \<and>
         select_page x_data y_data batch_size page
           = (py_slice x_data 0 batch_size, py_slice y_data 0 batch_size) \<and>
         py_slice x_data 0 batch_size = take (nat batch_size) x_data \<and>
         py_slice y_data 0 batch_size = take (nat batch_size) y_data \<and>
         take (nat batch_size) x_data \<noteq> [] \<and>
         (k < length bs \<longrightarrow>
            token_array (bs ! k)
              = map (pad_row (sequence_length (embedding st)))
                  (map (tokenize_sentence (embedding st)) (take (nat batch_size) x_data)) \<and>
            token_array (bs ! k) \<noteq> [] \<and>
            length (snd (bs ! k)) = length (take (nat batch_size) y_data) \<and>
            (\<exists>s s'. embedding s = embedding st \<and>
               yield_page s x_data y_data batch_size bert 0 = (s', Inr (bs ! k)))) \<and>
         (\<forall>s e. 0 < sequence_length (embedding s) \<and>
                snd (yield_page s x_data y_data batch_size bert page) = Inl e \<longrightarrow>
                snd (encode_targets s (take (nat batch_size) y_data)) = Inl e) \<and>
         get_data_generator st x_data y_data batch_size bert passes
           = get_data_generator st x_data y_data batch_size bert
               (map (\<lambda>shuffled. map (page_taken x_data batch_size) \<circ> shuffled) passes) \<and>
         (\<forall>b \<in> set bs. token_array b \<noteq> [])"
proof -
  let ?v = "visited_pages (length x_data) batch_size passes"
  from assms(2) have nz: "batch_size \<noteq> 0" by simp
  from visited_page_range[OF assms(3,4)] assms(5)
  have p0: "0 \<le> page" and pq: "page \<le> int (length x_data) div batch_size" by simp_all
  have pos: "0 < nat batch_size" using assms(2) by simp
  from assms(6)
  have "length (py_slice x_data (page * batch_size) (page * batch_size + batch_size)) = 0"
    by simp
  with length_page_slice[OF assms(2) p0 pq] pos
  have "\<not> page < int (length x_data) div batch_size"
    and "nat (int (length x_data) mod batch_size) = 0"
    by (auto split: if_splits)
  with pos_mod_sign[OF assms(2), of "int (length x_data)"] pq
  have pe: "page = int (length x_data) div batch_size"
    and m: "int (length x_data) mod batch_size = 0" by auto
  have fx: "py_slice x_data 0 batch_size = take (nat batch_size) x_data"
    and fy: "py_slice y_data 0 batch_size = take (nat batch_size) y_data"
    by (simp_all add: first_page[OF assms(2)])
  have sel: "select_page x_data y_data batch_size page
           = (py_slice x_data 0 batch_size, py_slice y_data 0 batch_size)"
    using assms(6) by (simp add: select_page_eq)
  have ne: "take (nat batch_size) x_data \<noteq> []" using assms(1) pos by simp
  have t0: "page_taken x_data batch_size page = 0" using assms(6) by (simp add: page_taken_def)
  have same: "yield_page s x_data y_data batch_size bert page
                = yield_page s x_data y_data batch_size bert 0" for s
    using yield_page_taken[of s x_data y_data batch_size bert page] by (simp add: t0)
  note gi = generator_index[OF nz assms(7)]
  have batch: "token_array (bs ! k)
              = map (pad_row (sequence_length (embedding st)))
                  (map (tokenize_sentence (embedding st)) (take (nat batch_size) x_data)) \<and>
            token_array (bs ! k) \<noteq> [] \<and>
            length (snd (bs ! k)) = length (take (nat batch_size) y_data) \<and>
            (\<exists>s s'. embedding s = embedding st \<and>
               yield_page s x_data y_data batch_size bert 0 = (s', Inr (bs ! k)))"
    if k: "k < length bs"
  proof -
    from gi k assms(5) obtain s s' where e: "embedding s = embedding st"
      and y: "yield_page s x_data y_data batch_size bert page = (s', Inr (bs ! k))" by blast
    note t = yield_page_batch[OF y]
    have ta: "token_array (bs ! k)
              = map (pad_row (sequence_length (embedding st)))
                  (map (tokenize_sentence (embedding st)) (take (nat batch_size) x_data))"
      using t(1) by (simp add: e sel fx)
    with ne have "token_array (bs ! k) \<noteq> []" by simp
    moreover have "length (snd (bs ! k)) = length (take (nat batch_size) y_data)"
      using t(2) by (simp add: sel fy)
    moreover from y e have "\<exists>s s'. embedding s = embedding st \<and>
               yield_page s x_data y_data batch_size bert 0 = (s', Inr (bs ! k))"
      unfolding same by blast
    ultimately show ?thesis using ta by blast
  qed
  have err: "\<forall>s e. 0 < sequence_length (embedding s) \<and>
                snd (yield_page s x_data y_data batch_size bert page) = Inl e \<longrightarrow>
                snd (encode_targets s (take (nat batch_size) y_data)) = Inl e"
  proof (intro allI impI)
    fix s e
    assume a: "0 < sequence_length (embedding s) \<and>
               snd (yield_page s x_data y_data batch_size bert page) = Inl e"
    have "fst (select_page x_data y_data batch_size page) \<noteq> []" using ne by (simp add: sel fx)
    from yield_page_error[OF _ this, of s bert e] a
    show "snd (encode_targets s (take (nat batch_size) y_data)) = Inl e"
      by (simp add: sel fy)
  qed
  have gen: "get_data_generator st x_data y_data batch_size bert passes
           = get_data_generator st x_data y_data batch_size bert
               (map (\<lambda>shuffled. map (page_taken x_data batch_size) \<circ> shuffled) passes)"
    by (simp only: generator_taken)
  have nonempty: "\<forall>b \<in> set bs. token_array b \<noteq> []"
  proof
    fix b assume "b \<in> set bs"
    then obtain j where j: "j < length bs" "bs ! j = b" by (auto simp: in_set_conv_nth)
    with gi obtain s s' where
      y: "yield_page s x_data y_data batch_size bert (?v ! j) = (s', Inr b)" by blast
    from yield_page_batch(1,3)[OF y] show "token_array b \<noteq> []" by simp
  qed
  from pe m sel fx fy ne batch err gen nonempty show ?thesis by blast
qed

theorem empty_page_substituted_witness:
  "visited_pages (length four_sentences) 2 [id] ! 2 = 2 \<and>
   py_slice four_sentences (2 * 2) (2 * 2 + 2) = [] \<and>
   select_page four_sentences four_targets 2 2
     = ([[''good'', ''film''], [''bad'']], [Str ''pos'', Str ''neg'']) \<and>
   token_array (fst (snd (get_data_generator trained_example four_sentences four_targets
                            2 False [id])) ! 2) = [[4, 4, 0, 0], [3, 0, 0, 0]] \<and>
   length (snd (fst (snd (get_data_generator trained_example four_sentences four_targets
                            2 False [id])) ! 2)) = 2"
proof -
  let ?bs = "[(Tokens [[4, 4, 0, 0], [3, 0, 0, 0]], [[1, 0], [0, 1]]),
              (Tokens [[4, 0, 0, 0], [4, 4, 0, 0]], [[1, 0], [0, 1]]),
              (Tokens [[4, 4, 0, 0], [3, 0, 0, 0]], [[1, 0], [0, 1 :: int]])]"
  have n: "four_sentences \<noteq> []" by (simp add: four_sentences_def)
  have z: "(0::int) < 2" by simp
  have s: "\<forall>sh \<in> set [id]. shuffle_outcome sh" by (simp add: shuffle_outcome_id)
  have k: "2 < length (visited_pages (length four_sentences) 2 [id])"
    by (simp add: four_visited)
  have v: "visited_pages (length four_sentences) 2 [id] ! 2 = 2" by (simp add: four_visited)
  note e = empty_page_substituted [OF n z s k v four_slice four_run]
  from e have sel: "select_page four_sentences four_targets 2 2
     = (take (nat 2) four_sentences, take (nat 2) four_targets)" by simp
  from e have "2 < length ?bs \<longrightarrow>
      token_array (?bs ! 2)
        = map (pad_row (sequence_length (embedding trained_example)))
            (map (tokenize_sentence (embedding trained_example)) (take (nat 2) four_sentences)) \<and>
      length (snd (?bs ! 2)) = length (take (nat 2) four_targets)" by blast
  then have b: "token_array (?bs ! 2)
        = map (pad_row (sequence_length (embedding trained_example)))
            (map (tokenize_sentence (embedding trained_example)) (take (nat 2) four_sentences))"
    and c: "length (snd (?bs ! 2)) = length (take (nat 2) four_targets)" by simp_all
  from v four_slice sel b c show ?thesis unfolding four_run
    by (simp add: four_sentences_def four_targets_def trained_example_eq pad_row_def
        numeral_2_eq_2 numeral_3_eq_3)
qed

text \<open>
  With empty input arrays the only page selects an empty slice, the first page put in
  its place is empty too, and the generator raises \<open>IndexError\<close> in the tokenizer
  without yielding a batch.
\<close>

theorem empty_input_counterexample:
  "floordiv (int (length ([] :: string list list))) 5 = Inr 0 \<and>
   py_range (0 + 1) = [0] \<and>
   py_slice ([] :: string list list) (0 * 5) (0 * 5 + 5) = [] \<and>
   select_page ([] :: string list list) ([] :: target list) 5 0 = ([], []) \<and>
   get_data_generator trained_example [] [] 5 False [id]
     = (trained_example, [], Some IndexError)"
  by (simp add: floordiv_def py_range_def yield_page_def select_page_def
      py_slice_def slice_bound_def tokenize_def Let_def upto.simps)

section \<open>Properties of prediction\<close>

subsection \<open>Thresholding\<close>

lemma apply_threshold_rows:
  assumes "t \<le> 1"
  shows "apply_threshold t res = map (map (\<lambda>v. if t \<le> v then 1 else 0)) res"
proof -
  have "(\<lambda>v. if v < t then 0 else v) \<circ> (\<lambda>v. if t \<le> v then 1 else v)
          = (\<lambda>v. if t \<le> v then 1 else (0::real))"
    using assms by (auto simp: fun_eq_iff)
  then show ?thesis by (simp add: apply_threshold_def Let_def)
qed

lemma filter_thresholded:
  "map fst (filter (\<lambda>(c, v). v \<noteq> 0) (zip cls (map (\<lambda>v. if t \<le> v then 1 else (0::real)) row)))
     = map fst (filter (\<lambda>(c, v). t \<le> v) (zip cls row))"
proof (induction cls arbitrary: row)
  case Nil
  then show ?case by simp
next
  case (Cons c cls)
  then show ?case by (cases row) simp_all
qed

lemma inverse_transform_thresholded:
  assumes "classes_fitted b = Some cls" "t \<le> 1" "\<forall>row \<in> set res. length row = length cls"
  shows "inverse_transform b (apply_threshold t res)
           = Inr (map (\<lambda>row. map fst (filter (\<lambda>(c, v). t \<le> v) (zip cls row))) res)"
  using assms
  by (auto simp: inverse_transform_def apply_threshold_rows filter_thresholded)

lemma predict_input_is_list:
  assumes "predict_input st sentence = Inr x"
  shows "is_list_of sentence = Inr (case sentence of One s \<Rightarrow> False | Many ss \<Rightarrow> True)"
  using assms
  by (auto simp: predict_input_def is_list_of_def tokenize_input_def tokenize_def
      split: sentence.splits sum.splits if_splits)

text \<open>
  Claim C6. For a multi-label model with a fitted binarizer and the default threshold
  0.6, whenever the network is called, with whatever scores it answers (one row for
  each sentence, as wide as there are classes): the thresholding of \<open>predict\<close> turns
  every score of every row into 1 when it is at least 0.6 and into 0 when it is below,
  each on its own; \<open>predict\<close> on a list of sentences returns, for each row, the tuple of
  the classes whose score is at least 0.6, in the order of the classes, and \<open>predict\<close>
  on one sentence returns that tuple for the first row. For the scores 0.7, 0.4, 0.61
  over three classes that is the tuple of the first and the third class, as the witness
  shows.
\<close>

theorem multi_label_threshold_decoding:
  assumes "multi_label st" and "model st = Some net"
    and "multi_label_binarizer st = Some b" and "classes_fitted b = Some cls"
    and "predict_input st sentence = Inr x" and "net x = res"
    and "\<forall>row \<in> set res. length row = length cls"
  shows "apply_threshold default_threshold res
           = map (map (\<lambda>v. if 0.6 \<le> v then 1 else 0)) res \<and>
         (\<forall>ss. sentence = Many ss \<longrightarrow>
            predict st sentence False default_threshold
              = Inr (Results (map (\<lambda>row. LabelTuple
                                (map fst (filter (\<lambda>(c, v). 0.6 \<le> v) (zip cls row)))) res))) \<and>
         (\<forall>s row rows. sentence = One s \<and> res = row # rows \<longrightarrow>
            predict st sentence False default_threshold
              = Inr (Scalar (LabelTuple
                               (map fst (filter (\<lambda>(c, v). 0.6 \<le> v) (zip cls row))))))"
proof -
  have t: "default_threshold \<le> 1" by (simp add: default_threshold_def)
  have a: "apply_threshold default_threshold res = map (map (\<lambda>v. if 0.6 \<le> v then 1 else 0)) res"
    using apply_threshold_rows[OF t, of res] by (simp add: default_threshold_def)
  have i: "inverse_transform b (apply_threshold default_threshold res)
           = Inr (map (\<lambda>row. map fst (filter (\<lambda>(c, v). 0.6 \<le> v) (zip cls row))) res)"
    using inverse_transform_thresholded[OF assms(4) t assms(7)]
    by (simp add: default_threshold_def)
  note l = predict_input_is_list[OF assms(5)]
  have many: "predict st sentence False default_threshold
              = Inr (Results (map (\<lambda>row. LabelTuple
                                (map fst (filter (\<lambda>(c, v). 0.6 \<le> v) (zip cls row)))) res))"
    if "sentence = Many ss" for ss
    using that assms(1,2,3,5,6) i l
    by (simp add: predict_def results_of_def Let_def comp_def)
  have one: "predict st sentence False default_threshold
              = Inr (Scalar (LabelTuple
                               (map fst (filter (\<lambda>(c, v). 0.6 \<le> v) (zip cls row)))))"
    if "sentence = One s \<and> res = row # rows" for s row rows
    using that assms(1,2,3,5,6) i l
    by (simp add: predict_def results_of_def Let_def)
  from a many one show ?thesis by blast
qed

lemma multi_example_fields:
  "multi_label multi_example" "model multi_example = Some score_network"
  "multi_label_binarizer multi_example
     = Some \<lparr>classes = [''sports'', ''politics'', ''tech''],
             classes_fitted = Some [''sports'', ''politics'', ''tech'']\<rparr>"
  "embedding multi_example = example_embedding"
  by (simp_all add: multi_example_def)

lemma multi_example_inputs:
  "predict_input multi_example (One [''match'', ''report'']) = Inr (Tokens [[5, 6, 0, 0]])"
  "predict_input multi_example (Many [[''match'', ''report''], [''vote'']])
     = Inr (Tokens [[5, 6, 0, 0], [4, 0, 0, 0]])"
  by (simp_all add: predict_input_def tokenize_input_def tokenize_def is_list_of_def
      network_input_def pad_sequences_def pad_row_def multi_example_fields
      example_embedding_def Let_def numeral_2_eq_2 numeral_3_eq_3)

theorem multi_label_threshold_decoding_witness:
  "apply_threshold default_threshold [[0.7, 0.4, 0.61]] = [[1, 0, 1]] \<and>
   predict multi_example (One [''match'', ''report'']) False default_threshold
     = Inr (Scalar (LabelTuple [''sports'', ''tech''])) \<and>
   apply_threshold default_threshold [[0.7, 0.4, 0.61], [0.1, 0.9, 0.6]]
     = [[1, 0, 1], [0, 1, 1]] \<and>
   predict multi_example (Many [[''match'', ''report''], [''vote'']]) False default_threshold
     = Inr (Results [LabelTuple [''sports'', ''tech''], LabelTuple [''politics'', ''tech'']])"
proof -
  have c: "classes_fitted \<lparr>classes = [''sports'', ''politics'', ''tech''],
               classes_fitted = Some [''sports'', ''politics'', ''tech'']\<rparr>
             = Some [''sports'', ''politics'', ''tech'']" by simp
  have r1: "score_network (Tokens [[5, 6, 0, 0]]) = [[0.7, 0.4, 0.61]]"
    by (simp add: score_network_def score_rows_def)
  have r2: "score_network (Tokens [[5, 6, 0, 0], [4, 0, 0, 0]])
              = [[0.7, 0.4, 0.61], [0.1, 0.9, 0.6]]"
    by (simp add: score_network_def score_rows_def)
  have l1: "\<forall>row \<in> set [[0.7, 0.4, 0.61 :: real]].
              length row = length [''sports'', ''politics'', ''tech'']" by simp
  have l2: "\<forall>row \<in> set [[0.7, 0.4, 0.61 :: real], [0.1, 0.9, 0.6]].
              length row = length [''sports'', ''politics'', ''tech'']" by simp
  from multi_label_threshold_decoding
         [OF multi_example_fields(1,2,3) c multi_example_inputs(1) r1 l1]
       multi_label_threshold_decoding
         [OF multi_example_fields(1,2,3) c multi_example_inputs(2) r2 l2]
  show ?thesis by simp
qed

subsection \<open>One sentence and a list of one sentence\<close>

lemma predict_input_one:
  assumes "s \<noteq> []" and "0 < sequence_length (embedding st)"
  shows "predict_input st (One s)
           = Inr (if is_bert (embedding st)
                  then TokensSeg [pad_row (sequence_length (embedding st))
                                    (tokenize_sentence (embedding st) s)]
                         (zeros 1 (sequence_length (embedding st)))
                  else Tokens [pad_row (sequence_length (embedding st))
                                 (tokenize_sentence (embedding st) s)])"
    and "predict_input st (Many [s]) = predict_input st (One s)"
  using assms
  by (simp_all add: predict_input_def tokenize_input_def tokenize_def is_list_of_def
      network_input_def pad_sequences_positive)

lemma argmax_from_range:
  "argmax_from xs pos best v = best \<or>
   (pos \<le> argmax_from xs pos best v \<and> argmax_from xs pos best v < pos + int (length xs))"
proof (induction xs arbitrary: pos best v)
  case Nil
  then show ?case by simp
next
  case (Cons x xs)
  show ?case
  proof (cases "x > v")
    case True
    from Cons.IH[of "pos + 1" pos x] True show ?thesis by auto
  next
    case False
    from Cons.IH[of "pos + 1" best v] False show ?thesis by auto
  qed
qed

lemma argmax_in_range:
  assumes "row \<noteq> []"
  shows "\<exists>k. argmax row = Inr (int k) \<and> k < length row"
proof -
  from assms obtain x xs where r: "row = x # xs" by (cases row) auto
  from argmax_from_range[of xs 1 0 x]
  have "0 \<le> argmax_from xs 1 0 x \<and> argmax_from xs 1 0 x < int (length row)"
    by (auto simp: r)
  then have "argmax_from xs 1 0 x = int (nat (argmax_from xs 1 0 x))"
    and "nat (argmax_from xs 1 0 x) < length row" by linarith+
  moreover have "argmax row = Inr (argmax_from xs 1 0 x)" by (simp add: argmax_def r)
  ultimately show ?thesis by metis
qed

lemma sequence_sum_total:
  "(\<And>x. x \<in> set xs \<Longrightarrow> \<exists>y. f x = Inr y) \<Longrightarrow>
     \<exists>ys. sequence_sum (map f xs) = Inr ys \<and> length ys = length xs"
proof (induction xs)
  case Nil
  then show ?case by simp
next
  case (Cons x xs)
  then obtain y ys where "f x = Inr y" "sequence_sum (map f xs) = Inr ys" "length ys = length xs"
    by (meson list.set_intros)
  then show ?case by simp
qed

lemma getitem_present: "k \<in> set (keys d) \<Longrightarrow> \<exists>v. getitem d k = Inr v"
proof -
  assume "k \<in> set (keys d)"
  then have "map_of d k \<noteq> None" by (simp add: keys_def map_of_eq_None_iff)
  then show ?thesis by (auto simp: getitem_def)
qed

lemma candidate_present:
  assumes "fst r \<in> set (keys (idx2label st))"
  shows "\<exists>c. candidate st r = Inr c"
proof -
  from getitem_present[OF assms] obtain l where "getitem (idx2label st) (fst r) = Inr l" by blast
  then show ?thesis by (simp add: candidate_def first_name_def)
qed

lemma set_py_enumerate: "p \<in> set (py_enumerate xs) \<Longrightarrow> \<exists>i < length xs. fst p = int i"
proof -
  assume m: "p \<in> set (py_enumerate xs)"
  obtain a b where p: "p = (a, b)" by (cases p)
  from m have "(a, b) \<in> set (zip (map int [0..<length xs]) xs)"
    unfolding py_enumerate_def p .
  then have "a \<in> set (map int [0..<length xs])" by (rule set_zip_leftD)
  then show ?thesis by (auto simp: p)
qed

lemma format_output_dic_total:
  assumes "row \<noteq> []" and "\<forall>i < length row. int i \<in> set (keys (idx2label st))"
  shows "\<exists>r. format_output_dic st words row = Inr r"
proof -
  let ?results = "sort_key (\<lambda>x. - snd x) (py_enumerate row)"
  have "\<exists>c. candidate st p = Inr c" if "p \<in> set ?results" for p
  proof -
    from that have "p \<in> set (py_enumerate row)" by simp
    from set_py_enumerate[OF this] assms(2) have "fst p \<in> set (keys (idx2label st))" by auto
    then show ?thesis by (rule candidate_present)
  qed
  from sequence_sum_total[of ?results "candidate st", OF this]
  obtain cs where cs: "sequence_sum (map (candidate st) ?results) = Inr cs"
    and l: "length cs = length ?results" by blast
  from l assms(1) have "cs \<noteq> []" by (auto simp: py_enumerate_def)
  then obtain c cs' where "cs = c # cs'" by (cases cs) auto
  with cs show ?thesis by (simp add: format_output_dic_def Let_def)
qed

lemma apply_threshold_single:
  "\<exists>row'. apply_threshold t [row] = [row'] \<and> length row' = length row \<and>
          (\<forall>v \<in> set row'. v = 0 \<or> v = 1)"
  by (auto simp: apply_threshold_def Let_def)

lemma results_of_single_row:
  assumes "row \<noteq> []"
    and "\<forall>i < length row. int i \<in> set (keys (idx2label st))"
    and "multi_label st \<longrightarrow>
           (\<exists>b cls. multi_label_binarizer st = Some b \<and> classes_fitted b = Some cls \<and>
                    length cls = length row)"
  shows "\<exists>am r. (if multi_label st then Inr []
                  else sequence_sum (map argmax
                         (if multi_label st then apply_threshold t [row] else [row]))) = Inr am \<and>
                results_of st [s] output_dict
                  (if multi_label st then apply_threshold t [row] else [row]) am = Inr [r]"
proof (cases "multi_label st")
  case True
  from apply_threshold_single[of t row] obtain row' where
    a: "apply_threshold t [row] = [row']" and l: "length row' = length row"
    and v: "\<forall>v \<in> set row'. v = 0 \<or> v = 1" by blast
  from True assms(3) obtain b cls where
    b: "multi_label_binarizer st = Some b" "classes_fitted b = Some cls" "length cls = length row"
    by blast
  show ?thesis
  proof (cases output_dict)
    case od: True
    from assms(1,2) l have "row' \<noteq> []" "\<forall>i < length row'. int i \<in> set (keys (idx2label st))"
      by auto
    from format_output_dic_total[OF this] obtain r where "format_output_dic st s row' = Inr r"
      by blast
    with True od a show ?thesis by (simp add: results_of_def row_at_def)
  next
    case od: False
    from v b(2,3) l have "inverse_transform b [row']
        = Inr [map fst (filter (\<lambda>(c, v). v \<noteq> 0) (zip cls row'))]"
      by (auto simp: inverse_transform_def)
    with True od a b(1) show ?thesis by (simp add: results_of_def)
  qed
next
  case False
  from argmax_in_range[OF assms(1)] obtain k where k: "argmax row = Inr (int k)" "k < length row"
    by blast
  show ?thesis
  proof (cases output_dict)
    case od: True
    from format_output_dic_total[OF assms(1,2)] obtain r where "format_output_dic st s row = Inr r"
      by blast
    with False od k show ?thesis by (simp add: results_of_def row_at_def)
  next
    case od: False
    from k(2) assms(2) have "int k \<in> set (keys (idx2label st))" by simp
    from getitem_present[OF this] obtain l where "getitem (idx2label st) (int k) = Inr l" by blast
    with False od k show ?thesis by (simp add: results_of_def)
  qed
qed

text \<open>
  Claim C5, as the code has it. For a model with a positive sequence length whose
  network answers the one padded sentence with one non-empty row of scores, every
  index of which has a label (and, in the multi-label case, whose binarizer is fitted
  with as many classes as the row has scores), and for every non-empty tokenized
  sentence \<open>s\<close>: the network is called with the same input for \<open>s\<close> and for the list of
  the one sentence \<open>s\<close>, \<open>predict\<close> on \<open>s\<close> returns one result, and \<open>predict\<close> on the
  list returns the list of exactly that result, with and without \<open>output_dict\<close>. On
  the empty sentence \<open>predict\<close> raises \<open>IndexError\<close>.
\<close>

theorem predict_scalar_and_list:
  assumes "s \<noteq> []" and "0 < sequence_length (embedding st)" and "model st = Some net"
    and "\<forall>x. predict_input st (One s) = Inr x \<longrightarrow> net x = [row]" and "row \<noteq> []"
    and "\<forall>i < length row. int i \<in> set (keys (idx2label st))"
    and "multi_label st \<longrightarrow>
           (\<exists>b cls. multi_label_binarizer st = Some b \<and> classes_fitted b = Some cls \<and>
                    length cls = length row)"
  shows "\<exists>x r. predict_input st (One s) = Inr x \<and> predict_input st (Many [s]) = Inr x \<and>
               predict st (One s) output_dict t = Inr (Scalar r) \<and>
               predict st (Many [s]) output_dict t = Inr (Results [r])"
proof -
  from predict_input_one[OF assms(1,2)] obtain x where
    x1: "predict_input st (One s) = Inr x" and x2: "predict_input st (Many [s]) = Inr x"
    by auto
  from assms(4) x1 have n: "net x = [row]" by blast
  from results_of_single_row[OF assms(5,6,7), of t s output_dict] obtain am r where
    am: "(if multi_label st then Inr []
          else sequence_sum (map argmax
                 (if multi_label st then apply_threshold t [row] else [row]))) = Inr am"
    and r: "results_of st [s] output_dict
              (if multi_label st then apply_threshold t [row] else [row]) am = Inr [r]"
    by blast
  have "predict st (One s) output_dict t = Inr (Scalar r) \<and>
        predict st (Many [s]) output_dict t = Inr (Results [r])"
  proof (cases "multi_label st")
    case True
    with am r have "am = []"
      and "results_of st [s] output_dict (apply_threshold t [row]) [] = Inr [r]" by auto
    with True assms(1,3) x1 x2 n show ?thesis
      by (simp add: predict_def is_list_of_def Let_def)
  next
    case False
    with am r have "sequence_sum (map argmax [row]) = Inr am"
      and "results_of st [s] output_dict [row] am = Inr [r]" by auto
    with False assms(1,3) x1 x2 n show ?thesis
      by (simp add: predict_def is_list_of_def Let_def del: sequence_sum.simps list.map)
  qed
  with x1 x2 show ?thesis by blast
qed

lemma single_example_fields:
  "model single_example = Some vote_network"
  "multi_label single_example = False"
  "idx2label single_example = [(0, ''pos''), (1, ''neg'')]"
  "embedding single_example = embedding trained_example"
  "sequence_length (embedding single_example) = 4"
  by (simp_all add: single_example_def trained_example_eq)

lemma single_example_input:
  "predict_input single_example (One [''good'', ''film'']) = Inr (Tokens [[4, 4, 0, 0]])"
  by (simp add: predict_input_def tokenize_input_def is_list_of_def network_input_def
      pad_sequences_def pad_row_def single_example_fields trained_example_eq Let_def
      numeral_2_eq_2)

theorem predict_scalar_and_list_witness:
  "predict single_example (One [''good'', ''film'']) False default_threshold
     = Inr (Scalar (Label ''neg'')) \<and>
   predict single_example (Many [[''good'', ''film'']]) False default_threshold
     = Inr (Results [Label ''neg''])"
proof -
  have n: "[''good'', ''film''] \<noteq> []" by simp
  have p: "0 < sequence_length (embedding single_example)"
    by (simp add: single_example_fields(5))
  have v: "\<forall>x. predict_input single_example (One [''good'', ''film'']) = Inr x \<longrightarrow>
             vote_network x = [[0.2, 0.8]]"
    by (simp add: single_example_input vote_network_def)
  have r: "[0.2, 0.8 :: real] \<noteq> []" by simp
  have i: "\<forall>i < length [0.2, 0.8 :: real]. int i \<in> set (keys (idx2label single_example))"
    by (auto simp: single_example_fields keys_def less_Suc_eq)
  have m: "multi_label single_example \<longrightarrow>
           (\<exists>b cls. multi_label_binarizer single_example = Some b \<and> classes_fitted b = Some cls \<and>
                    length cls = length [0.2, 0.8 :: real])"
    by (simp add: single_example_fields)
  from predict_scalar_and_list [OF n p single_example_fields(1) v r i m,
      of False default_threshold]
  obtain res where o: "predict single_example (One [''good'', ''film'']) False default_threshold
                         = Inr (Scalar res)"
    and l: "predict single_example (Many [[''good'', ''film'']]) False default_threshold
                         = Inr (Results [res])" by blast
  have "predict single_example (One [''good'', ''film'']) False default_threshold
          = Inr (Scalar (Label ''neg''))"
    by (simp add: predict_def is_list_of_def single_example_fields single_example_input
        vote_network_def results_of_def argmax_def getitem_def Let_def)
  with o have "res = Label ''neg''" by simp
  with o l show ?thesis by simp
qed

text \<open>
  The empty sentence: \<open>predict\<close> raises on it, while the list holding the empty
  sentence is answered with a list of one label.
\<close>

theorem empty_sentence_counterexample:
  "predict single_example (One []) False default_threshold = Inl IndexError \<and>
   predict single_example (Many [[]]) False default_threshold = Inr (Results [Label ''neg''])"
  by (simp add: predict_def predict_input_def tokenize_input_def tokenize_def network_input_def
      is_list_of_def single_example_fields results_of_def argmax_def
      getitem_def Let_def vote_network_def trained_example_eq pad_sequences_def pad_row_def)

end
